theory Spec2Isabelle
  imports Main "HOL-Library.Word"
begin

unbundle bit_operations_syntax

section \<open>Convex tables\<close>

text \<open>
  A Convex table is modelled as the list of its documents in creation order, each paired
  with its document id (\<open>_id\<close>).  \<open>ctx.db.insert\<close> appends a document under a fresh id,
  \<open>ctx.db.delete\<close> and \<open>ctx.db.patch\<close> address a document by its id, and an index query
  followed by \<open>.unique()\<close> returns the single matching document, \<open>null\<close> when there is
  none, and throws when there are several.  A mutation is a transaction: when it throws,
  no write of it is kept, so a failing mutation returns only the error.

  The id of an inserted document is one above the largest id in the table, so it differs
  from the id of every document the table holds.  Convex, beyond that, never hands out the
  id of a deleted document again; nothing below depends on the id a new document gets.
\<close>

datatype error = NotUnique

type_synonym 'r table = "(nat \<times> 'r) list"

definition fresh_id :: "'r table \<Rightarrow> nat" where
  "fresh_id t = foldr (\<lambda>(i, r) m. max (Suc i) m) t 0"

definition db_insert :: "'r \<Rightarrow> 'r table \<Rightarrow> 'r table" where
  "db_insert r t = t @ [(fresh_id t, r)]"

definition db_delete :: "nat \<Rightarrow> 'r table \<Rightarrow> 'r table" where
  "db_delete i t = filter (\<lambda>(j, r). j \<noteq> i) t"

definition db_patch :: "nat \<Rightarrow> ('r \<Rightarrow> 'r) \<Rightarrow> 'r table \<Rightarrow> 'r table" where
  "db_patch i f t = map (\<lambda>(j, r). if j = i then (j, f r) else (j, r)) t"

definition unique :: "('r \<Rightarrow> bool) \<Rightarrow> 'r table \<Rightarrow> error + (nat \<times> 'r) option" where
  "unique p t =
     (case filter (\<lambda>(j, r). p r) t of
        [] \<Rightarrow> Inr None
      | [x] \<Rightarrow> Inr (Some x)
      | x # y # zs \<Rightarrow> Inl NotUnique)"

section \<open>The event ledger (table \<open>webhook_events\<close>)\<close>

datatype event_status = Processing | Processed | Processed_pending

record webhook_event =
  paddleEventId :: string
  eventType :: string
  occurredAt :: string
  processedAt :: int
  status :: "event_status option"

type_synonym ledger = "webhook_event table"

definition LOCK_TTL_MS :: int where
  "LOCK_TTL_MS = 10 * 60 * 1000"

definition by_paddle_event_id :: "string \<Rightarrow> ledger \<Rightarrow> error + (nat \<times> webhook_event) option" where
  "by_paddle_event_id eid t = unique (\<lambda>r. paddleEventId r = eid) t"

definition processing_lock :: "int \<Rightarrow> string \<Rightarrow> string \<Rightarrow> string \<Rightarrow> webhook_event" where
  "processing_lock now eid ety occ =
     \<lparr>paddleEventId = eid, eventType = ety, occurredAt = occ, processedAt = now,
      status = Some Processing\<rparr>"

text \<open>
  \<open>checkAndRecordEvent\<close>: \<open>now\<close> is the value of \<open>Date.now()\<close> (milliseconds), which is
  fixed for the run of a mutation.  The result \<open>True\<close> is the source's "already
  reserved/processed", \<open>False\<close> is "lock acquired".
\<close>

definition checkAndRecordEvent ::
  "int \<Rightarrow> string \<Rightarrow> string \<Rightarrow> string \<Rightarrow> ledger \<Rightarrow> error + (bool \<times> ledger)" where
  "checkAndRecordEvent now eid ety occ t =
     (case by_paddle_event_id eid t of
        Inl e \<Rightarrow> Inl e
      | Inr None \<Rightarrow> Inr (False, db_insert (processing_lock now eid ety occ) t)
      | Inr (Some (i, existing)) \<Rightarrow>
          (let st = (case status existing of None \<Rightarrow> Processed | Some s \<Rightarrow> s) in
           if st = Processed \<or> st = Processed_pending then Inr (True, t)
           else if st = Processing then
             (if now - processedAt existing > LOCK_TTL_MS
              then Inr (False, db_insert (processing_lock now eid ety occ) (db_delete i t))
              else Inr (True, t))
           else Inr (False, db_insert (processing_lock now eid ety occ) t)))"

text \<open>
  \<open>markEventProcessed\<close>: the validator admits only \<open>"processed"\<close> and
  \<open>"processed_pending"\<close> for the optional argument \<open>status\<close>.
\<close>

datatype final_status = Final_processed | Final_processed_pending

fun status_of_final :: "final_status \<Rightarrow> event_status" where
  "status_of_final Final_processed = Processed"
| "status_of_final Final_processed_pending = Processed_pending"

definition markEventProcessed :: "int \<Rightarrow> string \<Rightarrow> final_status option \<Rightarrow> ledger \<Rightarrow> error + ledger" where
  "markEventProcessed now eid st t =
     (let targetStatus = (case st of None \<Rightarrow> Processed | Some f \<Rightarrow> status_of_final f) in
      case by_paddle_event_id eid t of
        Inl e \<Rightarrow> Inl e
      | Inr None \<Rightarrow> Inr t
      | Inr (Some (i, existing)) \<Rightarrow>
          Inr (db_patch i (\<lambda>r. r\<lparr>status := Some targetStatus, processedAt := now\<rparr>) t))"

definition unreserveEvent :: "string \<Rightarrow> ledger \<Rightarrow> error + ledger" where
  "unreserveEvent eid t =
     (case by_paddle_event_id eid t of
        Inl e \<Rightarrow> Inl e
      | Inr None \<Rightarrow> Inr t
      | Inr (Some (i, existing)) \<Rightarrow>
          (if status existing = Some Processing then Inr (db_delete i t) else Inr t))"

subsection \<open>Sequences of ledger operations\<close>

datatype ledger_op =
    Check int string string string
  | Mark int string "final_status option"
  | Unreserve string

fun ledger_step :: "ledger_op \<Rightarrow> ledger \<Rightarrow> error + ledger" where
  "ledger_step (Check now eid ety occ) t = map_sum id snd (checkAndRecordEvent now eid ety occ t)"
| "ledger_step (Mark now eid st) t = markEventProcessed now eid st t"
| "ledger_step (Unreserve eid) t = unreserveEvent eid t"

fun ledger_run :: "ledger_op list \<Rightarrow> ledger \<Rightarrow> error + ledger" where
  "ledger_run [] t = Inr t"
| "ledger_run (x # xs) t = (case ledger_step x t of Inl e \<Rightarrow> Inl e | Inr t' \<Rightarrow> ledger_run xs t')"

text \<open>
  The ledger states the three mutations can produce from the empty table: document ids
  are distinct, and no two documents carry the same event id.
\<close>

definition wf_ledger :: "ledger \<Rightarrow> bool" where
  "wf_ledger t = (distinct (map fst t) \<and> distinct (map (\<lambda>(i, r). paddleEventId r) t))"

definition lookup_event :: "string \<Rightarrow> ledger \<Rightarrow> (nat \<times> webhook_event) option" where
  "lookup_event eid t = find (\<lambda>(i, r). paddleEventId r = eid) t"

definition permanent :: "webhook_event \<Rightarrow> bool" where
  "permanent r = (status r = Some Processed \<or> status r = Some Processed_pending)"

definition same_event :: "webhook_event \<Rightarrow> webhook_event \<Rightarrow> bool" where
  "same_event r r' =
     (paddleEventId r' = paddleEventId r \<and> eventType r' = eventType r \<and> occurredAt r' = occurredAt r)"

fun marks :: "string \<Rightarrow> ledger_op \<Rightarrow> bool" where
  "marks eid (Mark now eid' st) = (eid' = eid)"
| "marks eid (Check now eid' ety occ) = False"
| "marks eid (Unreserve eid') = False"

text \<open>
  What a sequence of ledger operations does to a permanent record of the event id \<open>eid\<close>,
  as the statements below say it: only a \<open>markEventProcessed\<close> for that event id changes
  the record, writing its target status (\<open>args.status ?? "processed"\<close>) and the time of the
  call.  \<open>rewrites_status eid st x\<close> says that \<open>x\<close> is such a call whose target status is not
  \<open>st\<close>.
\<close>

definition target_status :: "final_status option \<Rightarrow> event_status" where
  "target_status st = (case st of None \<Rightarrow> Processed | Some f \<Rightarrow> status_of_final f)"

fun apply_mark :: "string \<Rightarrow> ledger_op \<Rightarrow> webhook_event \<Rightarrow> webhook_event" where
  "apply_mark eid (Mark at eid' st) r =
     (if eid' = eid then r\<lparr>status := Some (target_status st), processedAt := at\<rparr> else r)"
| "apply_mark eid (Check now eid' ety occ) r = r"
| "apply_mark eid (Unreserve eid') r = r"

fun rewrites_status :: "string \<Rightarrow> event_status option \<Rightarrow> ledger_op \<Rightarrow> bool" where
  "rewrites_status eid st (Mark at eid' f) = (eid' = eid \<and> Some (target_status f) \<noteq> st)"
| "rewrites_status eid st (Check now eid' ety occ) = False"
| "rewrites_status eid st (Unreserve eid') = False"

text \<open>Sample ledger documents, used to exercise the theorems on concrete tables.\<close>

definition sample_event :: "string \<Rightarrow> int \<Rightarrow> event_status option \<Rightarrow> webhook_event" where
  "sample_event eid at st =
     \<lparr>paddleEventId = eid, eventType = ''subscription.created'',
      occurredAt = ''2024-01-01T00:00:00Z'', processedAt = at, status = st\<rparr>"

section \<open>Webhook signature verification\<close>

text \<open>
  Strings are lists of characters.  \<open>split_on\<close> is \<open>String.prototype.split\<close> with a
  one-character separator, \<open>startsWith\<close> is the method of that name, and \<open>field_value\<close> is
  \<open>field.split("=")[1]\<close>, which is \<open>undefined\<close> (here \<open>None\<close>) when the field holds no
  \<open>=\<close>.
\<close>

definition WEBHOOK_MAX_AGE_SECONDS :: int where
  "WEBHOOK_MAX_AGE_SECONDS = 300"

fun split_on :: "char \<Rightarrow> string \<Rightarrow> string list" where
  "split_on c [] = [[]]"
| "split_on c (x # xs) =
     (if x = c then [] # split_on c xs
      else (case split_on c xs of [] \<Rightarrow> [[x]] | p # ps \<Rightarrow> (x # p) # ps))"

definition startsWith :: "string \<Rightarrow> string \<Rightarrow> bool" where
  "startsWith s p = (take (length p) s = p)"

definition field_value :: "string \<Rightarrow> string option" where
  "field_value f = (case split_on CHR ''='' f of a # b # rest \<Rightarrow> Some b | _ \<Rightarrow> None)"

text \<open>
  \<open>parseInt(s, 10)\<close>: leading white space is skipped, one sign is read, and the longest
  run of decimal digits that follows is the value; \<open>NaN\<close> (here \<open>None\<close>) when that run
  is empty.  Whatever follows the digits is ignored.  The white-space characters are the
  ones among the first 256 code points.  The value is the exact integer; JavaScript rounds
  it to a double, which differs only beyond \<open>2^53\<close>, far from any clock value.
\<close>

definition is_white_space :: "char \<Rightarrow> bool" where
  "is_white_space c = ((of_char c :: nat) \<in> {9, 10, 11, 12, 13, 32, 160})"

definition is_digit :: "char \<Rightarrow> bool" where
  "is_digit c = (48 \<le> (of_char c :: nat) \<and> (of_char c :: nat) \<le> 57)"

definition digits_value :: "string \<Rightarrow> int" where
  "digits_value ds = foldl (\<lambda>a c. 10 * a + (int (of_char c) - 48)) 0 ds"

definition parseInt :: "string \<Rightarrow> int option" where
  "parseInt s =
     (let s1 = dropWhile is_white_space s;
          negative = (case s1 of [] \<Rightarrow> False | c # r \<Rightarrow> c = CHR ''-'');
          s2 = (case s1 of [] \<Rightarrow> [] | c # r \<Rightarrow> if c = CHR ''+'' \<or> c = CHR ''-'' then r else s1);
          z = takeWhile is_digit s2
      in if z = [] then None
         else Some (if negative then - digits_value z else digits_value z))"

text \<open>
  \<open>b.toString(16).padStart(2, "0")\<close> for a byte \<open>b\<close> of the \<open>Uint8Array\<close>, and the
  digest string the source joins from them.
\<close>

definition hex_digit :: "nat \<Rightarrow> char" where
  "hex_digit n = ''0123456789abcdef'' ! n"

definition toString16 :: "nat \<Rightarrow> string" where
  "toString16 n = (if n < 16 then [hex_digit n] else [hex_digit (n div 16), hex_digit (n mod 16)])"

definition padStart :: "nat \<Rightarrow> char \<Rightarrow> string \<Rightarrow> string" where
  "padStart n c s = replicate (n - length s) c @ s"

definition hex_encode :: "8 word list \<Rightarrow> string" where
  "hex_encode bytes = concat (map (\<lambda>b. padStart 2 CHR ''0'' (toString16 (unat b))) bytes)"

text \<open>
  The comparison loop \<open>result |= computedHash.charCodeAt(i) ^ h1.charCodeAt(i)\<close>, run
  over two strings of the same length.
\<close>

definition xor_accumulate :: "string \<Rightarrow> string \<Rightarrow> int" where
  "xor_accumulate a b = fold (\<lambda>(x, y) r. r OR (of_char x XOR of_char y)) (zip a b) 0"

text \<open>
  \<open>verifyPaddleWebhookSignature\<close>.  The parameter \<open>hmac\<close> stands for the Web Crypto calls
  (\<open>importKey\<close> and \<open>sign\<close> with HMAC and SHA-256 over the encoded key and payload); it
  yields the signature bytes, or \<open>None\<close> when a call throws, which the source catches.
  \<open>now_ms\<close> is \<open>Date.now()\<close>.
\<close>

definition verifyPaddleWebhookSignature ::
  "(string \<Rightarrow> string \<Rightarrow> 8 word list option) \<Rightarrow> int \<Rightarrow> string \<Rightarrow> string \<Rightarrow> string \<Rightarrow> bool" where
  "verifyPaddleWebhookSignature hmac now_ms rawBody secret signatureHeader =
     (let parts = split_on CHR '';'' signatureHeader;
          tsField = find (\<lambda>p. startsWith p ''ts='') parts;
          h1Field = find (\<lambda>p. startsWith p ''h1='') parts
      in case (tsField, h1Field) of
           (Some tsf, Some h1f) \<Rightarrow>
             (case (field_value tsf, field_value h1f) of
                (Some ts, Some h1) \<Rightarrow>
                  if ts = [] \<or> h1 = [] then False
                  else (case parseInt ts of
                          None \<Rightarrow> False
                        | Some tsSeconds \<Rightarrow>
                            let nowSeconds = now_ms div 1000 in
                            if \<bar>nowSeconds - tsSeconds\<bar> > WEBHOOK_MAX_AGE_SECONDS then False
                            else (case hmac secret (ts @ '':'' @ rawBody) of
                                    None \<Rightarrow> False
                                  | Some signatureBytes \<Rightarrow>
                                      let computedHash = hex_encode signatureBytes in
                                      if length computedHash \<noteq> length h1 then False
                                      else xor_accumulate computedHash h1 = 0))
              | _ \<Rightarrow> False)
         | _ \<Rightarrow> False)"

text \<open>A stand-in for the Web Crypto calls, used to run the verifier on concrete requests.\<close>

definition sample_hmac :: "string \<Rightarrow> string \<Rightarrow> 8 word list option" where
  "sample_hmac key payload =
     (if key = [] then None
      else Some (map (\<lambda>c. of_nat (of_char c)) (take 2 key) @ [of_nat (length payload), 0x0F]))"

section \<open>The webhook route (\<open>registerRoutes\<close>)\<close>

text \<open>
  The HTTP action of the webhook route.  An action is not a transaction: every mutation
  it runs commits on its own, so the handler returns the store as the last successful
  mutation left it.  The store holds the ledger and the entity tables (of any type
  \<open>'e\<close>).  Parameters stand for what lies outside the handler's own control flow:
  \<open>hmac\<close> for the Web Crypto calls, \<open>parse_body\<close> for \<open>JSON.parse\<close>, and \<open>dispatch\<close> for
  \<open>processEvent\<close> followed by the \<open>onEvent\<close> handler and the handler registered for the
  event type; \<open>dispatch\<close> returns whether all of them returned (rather than threw) and the
  entity tables as they left them.  None of them touches the ledger.
\<close>

record 'd paddle_event =
  event_id :: string
  event_type :: string
  occurred_at :: string
  data :: 'd

text \<open>
  \<open>JSON.parse\<close> throws (\<open>Unparseable\<close>), or yields a value that is not accepted as the
  arguments of \<open>checkAndRecordEvent\<close> (\<open>NotAnEvent\<close>: the call throws inside the first
  \<open>try\<close>), or yields an event.
\<close>

datatype 'd parsed_body = Unparseable | NotAnEvent | Event "'d paddle_event"

record request =
  signature_header :: "string option"
  body :: string

datatype response_body =
    Text string
  | Received
  | Received_duplicate

datatype response = Response (status_code: nat) (response_body: response_body)

record 'e store =
  ledger :: ledger
  entities :: 'e

text \<open>JavaScript truthiness of an optional string: \<open>undefined\<close>, \<open>null\<close> and \<open>""\<close> are falsy.\<close>

definition truthy :: "string option \<Rightarrow> bool" where
  "truthy v = (case v of None \<Rightarrow> False | Some s \<Rightarrow> s \<noteq> [])"

text \<open>\<open>config?.PADDLE_WEBHOOK_SECRET || process.env.PADDLE_WEBHOOK_SECRET\<close>\<close>

definition webhookSecret :: "string option \<Rightarrow> string option \<Rightarrow> string option" where
  "webhookSecret config_secret env_secret = (if truthy config_secret then config_secret else env_secret)"

definition webhook_handler ::
  "(string \<Rightarrow> string \<Rightarrow> 8 word list option) \<Rightarrow> (string \<Rightarrow> 'd parsed_body) \<Rightarrow>
   ('d paddle_event \<Rightarrow> 'e \<Rightarrow> bool \<times> 'e) \<Rightarrow> string option \<Rightarrow> string option \<Rightarrow> int \<Rightarrow> int \<Rightarrow>
   request \<Rightarrow> 'e store \<Rightarrow> response \<times> 'e store" where
  "webhook_handler hmac parse_body dispatch config_secret env_secret now later req s =
     (case webhookSecret config_secret env_secret of
        None \<Rightarrow> (Response 500 (Text ''Webhook secret not configured''), s)
      | Some secret \<Rightarrow>
          if secret = [] then (Response 500 (Text ''Webhook secret not configured''), s)
          else (case signature_header req of
            None \<Rightarrow> (Response 400 (Text ''No signature provided''), s)
          | Some signature \<Rightarrow>
              if signature = [] then (Response 400 (Text ''No signature provided''), s)
              else if \<not> verifyPaddleWebhookSignature hmac now (body req) secret signature
              then (Response 400 (Text ''Webhook signature verification failed''), s)
              else (case parse_body (body req) of
                Unparseable \<Rightarrow> (Response 400 (Text ''Invalid JSON''), s)
              | NotAnEvent \<Rightarrow> (Response 500 (Text ''Idempotency check failed''), s)
              | Event event \<Rightarrow>
                  (case checkAndRecordEvent now (event_id event) (event_type event)
                          (occurred_at event) (ledger s) of
                     Inl e \<Rightarrow> (Response 500 (Text ''Idempotency check failed''), s)
                   | Inr (True, l1) \<Rightarrow> (Response 200 Received_duplicate, s\<lparr>ledger := l1\<rparr>)
                   | Inr (False, l1) \<Rightarrow>
                       (case dispatch event (entities s) of
                          (False, e1) \<Rightarrow>
                            (Response 500 (Text ''Error processing webhook''),
                             \<lparr>ledger = (case unreserveEvent (event_id event) l1 of
                                          Inl e \<Rightarrow> l1 | Inr l2 \<Rightarrow> l2),
                              entities = e1\<rparr>)
                        | (True, e1) \<Rightarrow>
                            (case markEventProcessed later (event_id event) None l1 of
                               Inr l2 \<Rightarrow> (Response 200 Received, \<lparr>ledger = l2, entities = e1\<rparr>)
                             | Inl e \<Rightarrow>
                                 (case markEventProcessed later (event_id event)
                                         (Some Final_processed_pending) l1 of
                                    Inr l2 \<Rightarrow>
                                      (Response 200 Received, \<lparr>ledger = l2, entities = e1\<rparr>)
                                  | Inl e' \<Rightarrow>
                                      (Response 500 (Text ''Failed to finalize event''),
                                       \<lparr>ledger = l1, entities = e1\<rparr>))))))))"

text \<open>Stand-ins for \<open>JSON.parse\<close> and for the dispatch, used on concrete requests.\<close>

definition sample_parse :: "string \<Rightarrow> unit parsed_body" where
  "sample_parse b =
     (if b = [] then Unparseable
      else if b = ''{}'' then NotAnEvent
      else Event \<lparr>event_id = b, event_type = ''subscription.paused'',
                  occurred_at = ''2024-01-01T00:00:00Z'', data = ()\<rparr>)"

definition failing_dispatch :: "unit paddle_event \<Rightarrow> nat \<Rightarrow> bool \<times> nat" where
  "failing_dispatch ev n = (False, Suc n)"

section \<open>Entity tables: subscriptions and transactions\<close>

text \<open>
  The documents of the tables \<open>subscriptions\<close> and \<open>transactions\<close>.  The fields carry the
  prefix of their table, since both tables (and the ledger) use the same field names.
  An optional field that is not set is \<open>None\<close>; patching a field with \<open>undefined\<close> unsets
  it.  Values of type \<open>v.any()\<close> are kept as text, except \<open>customData\<close>, an object read at
  its keys \<open>userId\<close> and \<open>orgId\<close>, which is a map from keys to strings.
\<close>

type_synonym custom_data = "string \<rightharpoonup> string"

record subscription =
  sub_paddleSubscriptionId :: string
  sub_paddleCustomerId :: string
  sub_status :: string
  sub_priceId :: string
  sub_quantity :: "int option"
  sub_scheduledChange :: "string option"
  sub_currentBillingPeriodStart :: "string option"
  sub_currentBillingPeriodEnd :: "string option"
  sub_nextBilledAt :: "string option"
  sub_pausedAt :: "string option"
  sub_canceledAt :: "string option"
  sub_customData :: "custom_data option"
  sub_userId :: "string option"
  sub_orgId :: "string option"

record transaction =
  txn_paddleTransactionId :: string
  txn_paddleCustomerId :: "string option"
  txn_paddleSubscriptionId :: "string option"
  txn_status :: string
  txn_currencyCode :: "string option"
  txn_totalAmount :: "string option"
  txn_collectionMode :: "string option"
  txn_billedAt :: "string option"
  txn_createdAt :: "string option"
  txn_customData :: "custom_data option"
  txn_userId :: "string option"
  txn_orgId :: "string option"

record entity_store =
  subscriptions :: "subscription table"
  transactions :: "transaction table"

text \<open>\<open>args.customData || {}\<close>\<close>

definition customData_or_empty :: "custom_data option \<Rightarrow> custom_data" where
  "customData_or_empty cd = (case cd of None \<Rightarrow> Map.empty | Some m \<Rightarrow> m)"

subsection \<open>\<open>handleSubscriptionCreated\<close> and its backfill loop\<close>

record subscription_created_args =
  sc_paddleSubscriptionId :: string
  sc_paddleCustomerId :: string
  sc_status :: string
  sc_priceId :: string
  sc_quantity :: "int option"
  sc_scheduledChange :: "string option"
  sc_currentBillingPeriodStart :: "string option"
  sc_currentBillingPeriodEnd :: "string option"
  sc_nextBilledAt :: "string option"
  sc_customData :: "custom_data option"

definition BATCH_SIZE :: nat where
  "BATCH_SIZE = 100"

text \<open>
  The patch of one transaction of the batch:
  \<open>{...(userId && !txn.userId && { userId }), ...(orgId && !txn.orgId && { orgId })}\<close>,
  where \<open>txn\<close> is the document as the batch query read it.
\<close>

definition backfill_patch ::
  "string option \<Rightarrow> string option \<Rightarrow> transaction \<Rightarrow> transaction \<Rightarrow> transaction" where
  "backfill_patch userId orgId txn r =
     r\<lparr>txn_userId := (if truthy userId \<and> \<not> truthy (txn_userId txn) then userId else txn_userId r),
       txn_orgId := (if truthy orgId \<and> \<not> truthy (txn_orgId txn) then orgId else txn_orgId r)\<rparr>"

text \<open>
  One turn of the \<open>while (hasMore)\<close> loop: the index query with \<open>.take(BATCH_SIZE)\<close> (the
  first documents of the subscription, in index order, which is creation order), the
  filter, the patches, and the new value of \<open>hasMore\<close>.
\<close>

definition backfill_step ::
  "string option \<Rightarrow> string option \<Rightarrow> string \<Rightarrow> transaction table \<Rightarrow> bool \<times> transaction table" where
  "backfill_step userId orgId subId txns =
     (let batch = take BATCH_SIZE (filter (\<lambda>(i, r). txn_paddleSubscriptionId r = Some subId) txns);
          toUpdate = filter (\<lambda>(i, txn). \<not> truthy (txn_userId txn) \<or> \<not> truthy (txn_orgId txn)) batch;
          txns' = fold (\<lambda>(i, txn). db_patch i (backfill_patch userId orgId txn)) toUpdate txns
      in (length batch = BATCH_SIZE \<and> length toUpdate > 0, txns'))"

text \<open>The loop; the result \<open>None\<close> is a loop that never ends.\<close>

partial_function (option) backfill_loop ::
  "string option \<Rightarrow> string option \<Rightarrow> string \<Rightarrow> transaction table \<Rightarrow> transaction table option" where
  "backfill_loop userId orgId subId txns =
     (case backfill_step userId orgId subId txns of
        (hasMore, txns') \<Rightarrow>
          if hasMore then backfill_loop userId orgId subId txns' else Some txns')"

definition handleSubscriptionCreated ::
  "subscription_created_args \<Rightarrow> entity_store \<Rightarrow> (error + entity_store) option" where
  "handleSubscriptionCreated args s =
     (case unique (\<lambda>r. sub_paddleSubscriptionId r = sc_paddleSubscriptionId args) (subscriptions s) of
        Inl e \<Rightarrow> Some (Inl e)
      | Inr existing \<Rightarrow>
          (let customData = customData_or_empty (sc_customData args);
               userId = customData ''userId'';
               orgId = customData ''orgId'';
               subs' = (case existing of
                          Some x \<Rightarrow> subscriptions s
                        | None \<Rightarrow>
                            db_insert
                              \<lparr>sub_paddleSubscriptionId = sc_paddleSubscriptionId args,
                               sub_paddleCustomerId = sc_paddleCustomerId args,
                               sub_status = sc_status args,
                               sub_priceId = sc_priceId args,
                               sub_quantity = sc_quantity args,
                               sub_scheduledChange = sc_scheduledChange args,
                               sub_currentBillingPeriodStart = sc_currentBillingPeriodStart args,
                               sub_currentBillingPeriodEnd = sc_currentBillingPeriodEnd args,
                               sub_nextBilledAt = sc_nextBilledAt args,
                               sub_pausedAt = None,
                               sub_canceledAt = None,
                               sub_customData = Some customData,
                               sub_userId = userId,
                               sub_orgId = orgId\<rparr>
                              (subscriptions s))
           in if truthy userId \<or> truthy orgId
              then (case backfill_loop userId orgId (sc_paddleSubscriptionId args) (transactions s) of
                      None \<Rightarrow> None
                    | Some txns' \<Rightarrow> Some (Inr \<lparr>subscriptions = subs', transactions = txns'\<rparr>))
              else Some (Inr \<lparr>subscriptions = subs', transactions = transactions s\<rparr>)))"

text \<open>
  A store with a hundred transactions of one subscription, each of them with a user id
  and without an organisation id, and the arguments of a \<open>subscription.created\<close> event
  whose custom data names the user only.
\<close>

definition sample_transaction :: "nat \<Rightarrow> transaction" where
  "sample_transaction k =
     \<lparr>txn_paddleTransactionId = ''txn_'' @ replicate k CHR ''x'',
      txn_paddleCustomerId = Some ''ctm_1'',
      txn_paddleSubscriptionId = Some ''sub_1'',
      txn_status = ''completed'',
      txn_currencyCode = Some ''USD'',
      txn_totalAmount = Some ''1000'',
      txn_collectionMode = Some ''automatic'',
      txn_billedAt = None,
      txn_createdAt = None,
      txn_customData = Some [''userId'' \<mapsto> ''user_1''],
      txn_userId = Some ''user_1'',
      txn_orgId = None\<rparr>"

definition hundred_transactions :: entity_store where
  "hundred_transactions =
     \<lparr>subscriptions = [], transactions = map (\<lambda>k. (k, sample_transaction k)) [0..<100]\<rparr>"

definition sample_subscription_created :: subscription_created_args where
  "sample_subscription_created =
     \<lparr>sc_paddleSubscriptionId = ''sub_1'',
      sc_paddleCustomerId = ''ctm_1'',
      sc_status = ''active'',
      sc_priceId = ''pri_1'',
      sc_quantity = Some 1,
      sc_scheduledChange = None,
      sc_currentBillingPeriodStart = None,
      sc_currentBillingPeriodEnd = None,
      sc_nextBilledAt = None,
      sc_customData = Some [''userId'' \<mapsto> ''user_1'']\<rparr>"

subsection \<open>\<open>handleSubscriptionUpdated\<close>\<close>

record subscription_updated_args =
  su_paddleSubscriptionId :: string
  su_status :: string
  su_priceId :: "string option"
  su_quantity :: "int option"
  su_scheduledChange :: "string option"
  su_currentBillingPeriodStart :: "string option"
  su_currentBillingPeriodEnd :: "string option"
  su_nextBilledAt :: "string option"
  su_pausedAt :: "string option"
  su_canceledAt :: "string option"
  su_customData :: "custom_data option"

text \<open>
  The object handed to \<open>ctx.db.patch\<close>, as the update of the stored document: a key
  written without condition takes the argument's value (and is unset when the argument is
  absent), a key spread under \<open>!== undefined\<close> is written only when its value is present.
\<close>

definition subscription_updated_patch :: "subscription_updated_args \<Rightarrow> subscription \<Rightarrow> subscription" where
  "subscription_updated_patch args r =
     (let customData = customData_or_empty (su_customData args);
          userId = customData ''userId'';
          orgId = customData ''orgId''
      in r\<lparr>sub_status := su_status args,
            sub_priceId := (case su_priceId args of None \<Rightarrow> sub_priceId r | Some p \<Rightarrow> p),
            sub_quantity := su_quantity args,
            sub_scheduledChange := su_scheduledChange args,
            sub_currentBillingPeriodStart := su_currentBillingPeriodStart args,
            sub_currentBillingPeriodEnd := su_currentBillingPeriodEnd args,
            sub_nextBilledAt := su_nextBilledAt args,
            sub_pausedAt := su_pausedAt args,
            sub_canceledAt := su_canceledAt args,
            sub_customData := (case su_customData args of
                                 None \<Rightarrow> sub_customData r | Some m \<Rightarrow> Some customData),
            sub_userId := (case userId of None \<Rightarrow> sub_userId r | Some u \<Rightarrow> Some u),
            sub_orgId := (case orgId of None \<Rightarrow> sub_orgId r | Some g \<Rightarrow> Some g)\<rparr>)"

definition handleSubscriptionUpdated ::
  "subscription_updated_args \<Rightarrow> entity_store \<Rightarrow> error + entity_store" where
  "handleSubscriptionUpdated args s =
     (case unique (\<lambda>r. sub_paddleSubscriptionId r = su_paddleSubscriptionId args) (subscriptions s) of
        Inl e \<Rightarrow> Inl e
      | Inr None \<Rightarrow> Inr s
      | Inr (Some (i, subscription)) \<Rightarrow>
          Inr (s\<lparr>subscriptions := db_patch i (subscription_updated_patch args) (subscriptions s)\<rparr>))"

subsection \<open>\<open>handleTransactionCreated\<close> and \<open>handleTransactionCompleted\<close>\<close>

record transaction_created_args =
  tc_paddleTransactionId :: string
  tc_paddleCustomerId :: "string option"
  tc_paddleSubscriptionId :: "string option"
  tc_status :: string
  tc_currencyCode :: "string option"
  tc_totalAmount :: "string option"
  tc_collectionMode :: "string option"
  tc_billedAt :: "string option"
  tc_createdAt :: "string option"
  tc_customData :: "custom_data option"

record transaction_completed_args =
  tp_paddleTransactionId :: string
  tp_paddleCustomerId :: "string option"
  tp_paddleSubscriptionId :: "string option"
  tp_totalAmount :: "string option"
  tp_billedAt :: "string option"
  tp_customData :: "custom_data option"

text \<open>
  The block that both handlers run before they insert a transaction: \<open>userId\<close> and
  \<open>orgId\<close> are read from the custom data, and when both are falsy and a subscription id
  is given, the subscription is looked up and, if found, its two fields are taken.
\<close>

definition resolve_linkage ::
  "custom_data \<Rightarrow> string option \<Rightarrow> subscription table \<Rightarrow> error + (string option \<times> string option)" where
  "resolve_linkage customData paddleSubscriptionId subs =
     (let userId = customData ''userId'';
          orgId = customData ''orgId''
      in if \<not> truthy userId \<and> \<not> truthy orgId \<and> truthy paddleSubscriptionId
         then (case paddleSubscriptionId of
                 None \<Rightarrow> Inr (userId, orgId)
               | Some subId \<Rightarrow>
                   (case unique (\<lambda>r. sub_paddleSubscriptionId r = subId) subs of
                      Inl e \<Rightarrow> Inl e
                    | Inr None \<Rightarrow> Inr (userId, orgId)
                    | Inr (Some (i, subscription)) \<Rightarrow>
                        Inr (sub_userId subscription, sub_orgId subscription)))
         else Inr (userId, orgId))"

definition handleTransactionCreated ::
  "transaction_created_args \<Rightarrow> entity_store \<Rightarrow> error + entity_store" where
  "handleTransactionCreated args s =
     (case unique (\<lambda>r. txn_paddleTransactionId r = tc_paddleTransactionId args) (transactions s) of
        Inl e \<Rightarrow> Inl e
      | Inr (Some existing) \<Rightarrow> Inr s
      | Inr None \<Rightarrow>
          (let customData = customData_or_empty (tc_customData args) in
           case resolve_linkage customData (tc_paddleSubscriptionId args) (subscriptions s) of
             Inl e \<Rightarrow> Inl e
           | Inr (userId, orgId) \<Rightarrow>
               Inr (s\<lparr>transactions :=
                      db_insert
                        \<lparr>txn_paddleTransactionId = tc_paddleTransactionId args,
                         txn_paddleCustomerId = tc_paddleCustomerId args,
                         txn_paddleSubscriptionId = tc_paddleSubscriptionId args,
                         txn_status = tc_status args,
                         txn_currencyCode = tc_currencyCode args,
                         txn_totalAmount = tc_totalAmount args,
                         txn_collectionMode = tc_collectionMode args,
                         txn_billedAt = tc_billedAt args,
                         txn_createdAt = tc_createdAt args,
                         txn_customData = Some customData,
                         txn_userId = userId,
                         txn_orgId = orgId\<rparr>
                        (transactions s)\<rparr>)))"

definition handleTransactionCompleted ::
  "transaction_completed_args \<Rightarrow> entity_store \<Rightarrow> error + entity_store" where
  "handleTransactionCompleted args s =
     (case unique (\<lambda>r. txn_paddleTransactionId r = tp_paddleTransactionId args) (transactions s) of
        Inl e \<Rightarrow> Inl e
      | Inr (Some (i, transaction)) \<Rightarrow>
          Inr (s\<lparr>transactions :=
                 db_patch i
                   (\<lambda>r. r\<lparr>txn_status := ''completed'',
                           txn_totalAmount :=
                             (case tp_totalAmount args of None \<Rightarrow> txn_totalAmount r | Some a \<Rightarrow> Some a),
                           txn_billedAt :=
                             (case tp_billedAt args of None \<Rightarrow> txn_billedAt r | Some b \<Rightarrow> Some b),
                           txn_paddleCustomerId :=
                             (case tp_paddleCustomerId args of
                                None \<Rightarrow> txn_paddleCustomerId r | Some c \<Rightarrow> Some c),
                           txn_paddleSubscriptionId :=
                             (case tp_paddleSubscriptionId args of
                                None \<Rightarrow> txn_paddleSubscriptionId r | Some c \<Rightarrow> Some c)\<rparr>)
                   (transactions s)\<rparr>)
      | Inr None \<Rightarrow>
          (let customData = customData_or_empty (tp_customData args) in
           case resolve_linkage customData (tp_paddleSubscriptionId args) (subscriptions s) of
             Inl e \<Rightarrow> Inl e
           | Inr (userId, orgId) \<Rightarrow>
               Inr (s\<lparr>transactions :=
                      db_insert
                        \<lparr>txn_paddleTransactionId = tp_paddleTransactionId args,
                         txn_paddleCustomerId = tp_paddleCustomerId args,
                         txn_paddleSubscriptionId = tp_paddleSubscriptionId args,
                         txn_status = ''completed'',
                         txn_currencyCode = None,
                         txn_totalAmount = tp_totalAmount args,
                         txn_collectionMode = None,
                         txn_billedAt = tp_billedAt args,
                         txn_createdAt = None,
                         txn_customData = Some customData,
                         txn_userId = userId,
                         txn_orgId = orgId\<rparr>
                        (transactions s)\<rparr>)))"

text \<open>
  The documents the two handlers are expected to insert, written out field by field for
  the statements below: \<open>custom_value\<close> reads a key of the event's custom data (absent when
  there is no custom data), and the stored \<open>customData\<close> is the event's custom data, or the
  empty object.
\<close>

definition custom_value :: "custom_data option \<Rightarrow> string \<Rightarrow> string option" where
  "custom_value cd k = (case cd of None \<Rightarrow> None | Some m \<Rightarrow> m k)"

definition created_transaction ::
  "transaction_created_args \<Rightarrow> string option \<Rightarrow> string option \<Rightarrow> transaction" where
  "created_transaction a u g =
     \<lparr>txn_paddleTransactionId = tc_paddleTransactionId a,
      txn_paddleCustomerId = tc_paddleCustomerId a,
      txn_paddleSubscriptionId = tc_paddleSubscriptionId a,
      txn_status = tc_status a,
      txn_currencyCode = tc_currencyCode a,
      txn_totalAmount = tc_totalAmount a,
      txn_collectionMode = tc_collectionMode a,
      txn_billedAt = tc_billedAt a,
      txn_createdAt = tc_createdAt a,
      txn_customData = Some (case tc_customData a of None \<Rightarrow> Map.empty | Some m \<Rightarrow> m),
      txn_userId = u,
      txn_orgId = g\<rparr>"

definition completed_transaction ::
  "transaction_completed_args \<Rightarrow> string option \<Rightarrow> string option \<Rightarrow> transaction" where
  "completed_transaction c u g =
     \<lparr>txn_paddleTransactionId = tp_paddleTransactionId c,
      txn_paddleCustomerId = tp_paddleCustomerId c,
      txn_paddleSubscriptionId = tp_paddleSubscriptionId c,
      txn_status = ''completed'',
      txn_currencyCode = None,
      txn_totalAmount = tp_totalAmount c,
      txn_collectionMode = None,
      txn_billedAt = tp_billedAt c,
      txn_createdAt = None,
      txn_customData = Some (case tp_customData c of None \<Rightarrow> Map.empty | Some m \<Rightarrow> m),
      txn_userId = u,
      txn_orgId = g\<rparr>"

text \<open>Sample documents and arguments for the entity handlers.\<close>

definition sample_subscription :: subscription where
  "sample_subscription =
     \<lparr>sub_paddleSubscriptionId = ''sub_1'',
      sub_paddleCustomerId = ''ctm_1'',
      sub_status = ''active'',
      sub_priceId = ''pri_1'',
      sub_quantity = Some 3,
      sub_scheduledChange = Some ''pause'',
      sub_currentBillingPeriodStart = Some ''2024-01-01'',
      sub_currentBillingPeriodEnd = Some ''2024-02-01'',
      sub_nextBilledAt = Some ''2024-02-01'',
      sub_pausedAt = None,
      sub_canceledAt = None,
      sub_customData = Some [''userId'' \<mapsto> ''user_1''],
      sub_userId = Some ''user_1'',
      sub_orgId = Some ''org_1''\<rparr>"

definition sample_subscription_updated :: subscription_updated_args where
  "sample_subscription_updated =
     \<lparr>su_paddleSubscriptionId = ''sub_1'',
      su_status = ''past_due'',
      su_priceId = None,
      su_quantity = None,
      su_scheduledChange = None,
      su_currentBillingPeriodStart = None,
      su_currentBillingPeriodEnd = None,
      su_nextBilledAt = None,
      su_pausedAt = None,
      su_canceledAt = None,
      su_customData = None\<rparr>"

definition sample_transaction_created :: "custom_data option \<Rightarrow> transaction_created_args" where
  "sample_transaction_created cd =
     \<lparr>tc_paddleTransactionId = ''txn_9'',
      tc_paddleCustomerId = Some ''ctm_1'',
      tc_paddleSubscriptionId = Some ''sub_1'',
      tc_status = ''billed'',
      tc_currencyCode = Some ''USD'',
      tc_totalAmount = Some ''1000'',
      tc_collectionMode = None,
      tc_billedAt = None,
      tc_createdAt = None,
      tc_customData = cd\<rparr>"

definition sample_transaction_completed :: "custom_data option \<Rightarrow> transaction_completed_args" where
  "sample_transaction_completed cd =
     \<lparr>tp_paddleTransactionId = ''txn_9'',
      tp_paddleCustomerId = Some ''ctm_1'',
      tp_paddleSubscriptionId = Some ''sub_1'',
      tp_totalAmount = Some ''1000'',
      tp_billedAt = None,
      tp_customData = cd\<rparr>"

definition sample_entities :: entity_store where
  "sample_entities = \<lparr>subscriptions = [(0, sample_subscription)], transactions = []\<rparr>"

section \<open>Properties of the tables\<close>

lemma fresh_id_greater: "(i, r) \<in> set t \<Longrightarrow> i < fresh_id t"
  by (induction t) (auto simp: fresh_id_def)

lemma fresh_id_notin: "fresh_id t \<notin> fst ` set t"
  using fresh_id_greater by fastforce

lemma filter_distinct_key:
  "distinct (map f t) \<Longrightarrow>
   filter (\<lambda>x. f x = k) t = (case find (\<lambda>x. f x = k) t of None \<Rightarrow> [] | Some x \<Rightarrow> [x])"
proof (induction t)
  case Nil
  then show ?case by simp
next
  case (Cons a t)
  have notin: "f a \<notin> f ` set t"
    using Cons.prems by simp
  have "filter (\<lambda>x. f x = k) t = []" if "f a = k"
  proof -
    have "\<forall>x\<in>set t. f x \<noteq> k"
      using notin that by blast
    then show ?thesis
      by (simp add: filter_empty_conv)
  qed
  with Cons show ?case by (auto split: option.splits)
qed

lemma by_paddle_event_id_wf:
  assumes "wf_ledger t"
  shows "by_paddle_event_id eid t = Inr (lookup_event eid t)"
proof -
  have d: "distinct (map (\<lambda>x. paddleEventId (snd x)) t)"
    using assms by (simp add: wf_ledger_def case_prod_unfold)
  have "filter (\<lambda>x. paddleEventId (snd x) = eid) t =
        (case find (\<lambda>x. paddleEventId (snd x) = eid) t of None \<Rightarrow> [] | Some x \<Rightarrow> [x])"
    using filter_distinct_key [OF d] .
  then show ?thesis
    by (simp add: by_paddle_event_id_def unique_def lookup_event_def case_prod_unfold
        split: option.splits)
qed

lemma find_distinct_key_iff:
  "distinct (map f t) \<Longrightarrow> (find (\<lambda>x. f x = k) t = Some x) = (x \<in> set t \<and> f x = k)"
  by (induction t) force+

lemma lookup_event_iff:
  assumes "wf_ledger t"
  shows "(lookup_event eid t = Some (i, r)) = ((i, r) \<in> set t \<and> paddleEventId r = eid)"
proof -
  have d: "distinct (map (\<lambda>x. paddleEventId (snd x)) t)"
    using assms by (simp add: wf_ledger_def case_prod_unfold)
  show ?thesis
    using find_distinct_key_iff [OF d, of eid "(i, r)"]
    by (simp add: lookup_event_def case_prod_unfold)
qed

lemma lookup_event_None_iff:
  "(lookup_event eid t = None) = (\<forall>(i, r) \<in> set t. paddleEventId r \<noteq> eid)"
  by (auto simp: lookup_event_def find_None_iff)

lemma wf_ledger_same_id:
  "wf_ledger t \<Longrightarrow> (i, r) \<in> set t \<Longrightarrow> (i, r') \<in> set t \<Longrightarrow> r = r'"
  by (metis wf_ledger_def eq_key_imp_eq_value)

lemma wf_ledger_same_event:
  "wf_ledger t \<Longrightarrow> (i, r) \<in> set t \<Longrightarrow> (j, r') \<in> set t \<Longrightarrow>
   paddleEventId r = paddleEventId r' \<Longrightarrow> i = j \<and> r = r'"
proof -
  assume a: "wf_ledger t" "(i, r) \<in> set t" "(j, r') \<in> set t" "paddleEventId r = paddleEventId r'"
  have "inj_on (\<lambda>x. paddleEventId (snd x)) (set t)"
    using a(1) by (simp add: wf_ledger_def case_prod_unfold distinct_map)
  from inj_onD [OF this, of "(i, r)" "(j, r')"] have "(i, r) = (j, r')"
    using a(2,3,4) by simp
  then show ?thesis by simp
qed

lemma set_db_insert: "set (db_insert r t) = insert (fresh_id t, r) (set t)"
  by (simp add: db_insert_def)

lemma set_db_delete: "set (db_delete i t) = {x \<in> set t. fst x \<noteq> i}"
  by (auto simp: db_delete_def)

lemma set_db_patch:
  "set (db_patch i f t) = (\<lambda>x. if fst x = i then (fst x, f (snd x)) else x) ` set t"
  by (auto simp: db_patch_def case_prod_unfold)

lemma unique_SomeD:
  assumes "unique p t = Inr (Some x)"
  shows "x \<in> set t \<and> p (snd x)"
proof -
  have "filter (\<lambda>(j, r). p r) t = [x]"
    using assms by (auto simp: unique_def split: list.splits)
  then have "x \<in> set (filter (\<lambda>(j, r). p r) t)"
    by simp
  then show ?thesis
    by (auto simp: case_prod_unfold)
qed

lemma db_patch_member: "(i, r) \<in> set t \<Longrightarrow> (i, f r) \<in> set (db_patch i f t)"
  by (force simp: set_db_patch)

lemma wf_db_insert:
  assumes "wf_ledger t" "lookup_event (paddleEventId r) t = None"
  shows "wf_ledger (db_insert r t)"
proof -
  have "paddleEventId r \<notin> (\<lambda>x. paddleEventId (snd x)) ` set t"
    using assms(2) by (auto simp: lookup_event_None_iff)
  then show ?thesis
    using assms(1) fresh_id_notin [of t]
    by (simp add: wf_ledger_def db_insert_def case_prod_unfold)
qed

lemma wf_db_delete: "wf_ledger t \<Longrightarrow> wf_ledger (db_delete i t)"
  by (simp add: wf_ledger_def db_delete_def distinct_map_filter)

lemma wf_db_patch:
  assumes "wf_ledger t" "\<And>r. paddleEventId (f r) = paddleEventId r"
  shows "wf_ledger (db_patch i f t)"
proof -
  have "map fst (db_patch i f t) = map fst t"
    by (simp add: db_patch_def case_prod_unfold)
  moreover have "map (\<lambda>x. paddleEventId (snd x)) (db_patch i f t) = map (\<lambda>x. paddleEventId (snd x)) t"
    by (simp add: db_patch_def case_prod_unfold assms(2))
  ultimately show ?thesis
    using assms(1) by (simp add: wf_ledger_def case_prod_unfold)
qed

lemma lookup_after_delete:
  assumes "wf_ledger t" "lookup_event eid t = Some (i, r)"
  shows "lookup_event eid (db_delete i t) = None"
proof -
  have "(i, r) \<in> set t" "paddleEventId r = eid"
    using assms by (simp_all add: lookup_event_iff)
  then show ?thesis
    using wf_ledger_same_event [OF assms(1)]
    by (fastforce simp: lookup_event_None_iff set_db_delete)
qed

lemma checkAndRecordEvent_wf:
  assumes "wf_ledger t"
  shows "checkAndRecordEvent now eid ety occ t =
     (case lookup_event eid t of
        None \<Rightarrow> Inr (False, db_insert (processing_lock now eid ety occ) t)
      | Some (i, existing) \<Rightarrow>
          if status existing = Some Processing \<and> now - processedAt existing > LOCK_TTL_MS
          then Inr (False, db_insert (processing_lock now eid ety occ) (db_delete i t))
          else Inr (True, t))"
proof (cases "lookup_event eid t")
  case None
  then show ?thesis
    by (simp add: checkAndRecordEvent_def by_paddle_event_id_wf [OF assms])
next
  case (Some a)
  obtain i e where a: "a = (i, e)" by (cases a)
  show ?thesis
  proof (cases "status e")
    case None
    then show ?thesis
      using Some a by (simp add: checkAndRecordEvent_def by_paddle_event_id_wf [OF assms])
  next
    case (Some s)
    then show ?thesis
      using \<open>lookup_event eid t = Some a\<close> a
      by (cases s) (simp_all add: checkAndRecordEvent_def by_paddle_event_id_wf [OF assms])
  qed
qed

lemma markEventProcessed_wf:
  assumes "wf_ledger t"
  shows "markEventProcessed now eid st t =
     (case lookup_event eid t of
        None \<Rightarrow> Inr t
      | Some (i, existing) \<Rightarrow>
          Inr (db_patch i (\<lambda>r. r\<lparr>status := Some (case st of None \<Rightarrow> Processed | Some f \<Rightarrow> status_of_final f),
                                   processedAt := now\<rparr>) t))"
  by (simp add: markEventProcessed_def by_paddle_event_id_wf [OF assms] Let_def
      split: option.splits)

lemma unreserveEvent_wf:
  assumes "wf_ledger t"
  shows "unreserveEvent eid t =
     (case lookup_event eid t of
        None \<Rightarrow> Inr t
      | Some (i, existing) \<Rightarrow>
          if status existing = Some Processing then Inr (db_delete i t) else Inr t)"
  by (simp add: unreserveEvent_def by_paddle_event_id_wf [OF assms] split: option.splits)

lemma ledger_step_wf:
  assumes "wf_ledger t"
  shows "\<exists>t'. ledger_step x t = Inr t' \<and> wf_ledger t'"
proof (cases x)
  case (Check now eid ety occ)
  have ins: "wf_ledger (db_insert (processing_lock now eid ety occ) t)"
    if "lookup_event eid t = None"
    using wf_db_insert [OF assms, of "processing_lock now eid ety occ"] that
    by (simp add: processing_lock_def)
  have del: "wf_ledger (db_insert (processing_lock now eid ety occ) (db_delete i t))"
    if "lookup_event eid t = Some (i, r)" for i r
    using wf_db_insert [OF wf_db_delete [OF assms], of "processing_lock now eid ety occ" i]
      lookup_after_delete [OF assms that]
    by (simp add: processing_lock_def)
  show ?thesis
    using Check assms ins del
    by (auto simp: checkAndRecordEvent_wf split: option.splits)
next
  case (Mark now eid st)
  then show ?thesis
    using assms by (auto simp: markEventProcessed_wf wf_db_patch split: option.splits)
next
  case (Unreserve eid)
  then show ?thesis
    using assms by (auto simp: unreserveEvent_wf wf_db_delete split: option.splits)
qed

lemma ledger_run_wf:
  "wf_ledger t \<Longrightarrow> \<exists>t'. ledger_run xs t = Inr t' \<and> wf_ledger t'"
proof (induction xs arbitrary: t)
  case Nil
  then show ?case by simp
next
  case (Cons x xs)
  from ledger_step_wf [OF Cons.prems, of x] obtain t1
    where "ledger_step x t = Inr t1" "wf_ledger t1" by blast
  with Cons.IH [of t1] show ?case by simp
qed

lemma ledger_step_permanent:
  assumes wf: "wf_ledger t" and mem: "(i, r) \<in> set t" and perm: "permanent r"
    and step: "ledger_step x t = Inr t'"
  shows "\<exists>r'. (i, r') \<in> set t' \<and> same_event r r' \<and> permanent r' \<and> (marks (paddleEventId r) x \<or> r' = r)"
proof (cases x)
  case (Check now eid ety occ)
  show ?thesis
  proof (cases "lookup_event eid t")
    case None
    then show ?thesis
      using Check step mem perm wf
      by (auto simp: checkAndRecordEvent_wf set_db_insert same_event_def)
  next
    case (Some a)
    obtain j e where a: "a = (j, e)" by (cases a)
    have je: "(j, e) \<in> set t" "paddleEventId e = eid"
      using Some a wf by (simp_all add: lookup_event_iff)
    show ?thesis
    proof (cases "status e = Some Processing \<and> now - processedAt e > LOCK_TTL_MS")
      case True
      then have "e \<noteq> r" using perm by (auto simp: permanent_def)
      then have "j \<noteq> i" using wf_ledger_same_id [OF wf mem] je(1) by blast
      then show ?thesis
        using Check step mem perm wf Some a True
        by (auto simp: checkAndRecordEvent_wf set_db_insert set_db_delete same_event_def)
    next
      case False
      then show ?thesis
        using Check step mem perm wf Some a
        by (auto simp: checkAndRecordEvent_wf same_event_def)
    qed
  qed
next
  case (Mark now eid st)
  show ?thesis
  proof (cases "lookup_event eid t")
    case None
    then show ?thesis
      using Mark step mem perm wf by (auto simp: markEventProcessed_wf same_event_def)
  next
    case (Some a)
    obtain j e where a: "a = (j, e)" by (cases a)
    have je: "(j, e) \<in> set t" "paddleEventId e = eid"
      using Some a wf by (simp_all add: lookup_event_iff)
    show ?thesis
    proof (cases "j = i")
      case True
      then have "e = r" using wf_ledger_same_id [OF wf mem] je(1) by blast
      then have "marks (paddleEventId r) x" using Mark je(2) by simp
      moreover have "(i, r\<lparr>status := Some (case st of None \<Rightarrow> Processed | Some f \<Rightarrow> status_of_final f),
                            processedAt := now\<rparr>) \<in> set t'"
        using Mark step wf Some a True mem
        by (force simp: markEventProcessed_wf set_db_patch)
      ultimately show ?thesis
        by (cases st; cases "the st") (auto simp: same_event_def permanent_def intro!: exI)
    next
      case False
      then have "(i, r) \<in> set t'"
        using Mark step wf Some a mem
        by (force simp: markEventProcessed_wf set_db_patch)
      then show ?thesis
        using perm by (auto simp: same_event_def)
    qed
  qed
next
  case (Unreserve eid)
  show ?thesis
  proof (cases "lookup_event eid t")
    case None
    then show ?thesis
      using Unreserve step mem perm wf by (auto simp: unreserveEvent_wf same_event_def)
  next
    case (Some a)
    obtain j e where a: "a = (j, e)" by (cases a)
    have je: "(j, e) \<in> set t" "paddleEventId e = eid"
      using Some a wf by (simp_all add: lookup_event_iff)
    show ?thesis
    proof (cases "status e = Some Processing")
      case True
      then have "e \<noteq> r" using perm by (auto simp: permanent_def)
      then have "j \<noteq> i" using wf_ledger_same_id [OF wf mem] je(1) by blast
      then show ?thesis
        using Unreserve step mem perm wf Some a True
        by (auto simp: unreserveEvent_wf set_db_delete same_event_def)
    next
      case False
      then show ?thesis
        using Unreserve step mem perm wf Some a
        by (auto simp: unreserveEvent_wf same_event_def)
    qed
  qed
qed


lemma ledger_run_permanent:
  assumes "wf_ledger t" "(i, r) \<in> set t" "permanent r"
  shows "\<exists>t' r'. ledger_run xs t = Inr t' \<and> wf_ledger t' \<and> (i, r') \<in> set t' \<and>
           same_event r r' \<and> permanent r' \<and> (list_ex (marks (paddleEventId r)) xs \<or> r' = r)"
  using assms
proof (induction xs arbitrary: t r)
  case Nil
  then show ?case by (simp add: same_event_def)
next
  case (Cons x xs)
  from ledger_step_wf [OF Cons.prems(1), of x] obtain t1
    where t1: "ledger_step x t = Inr t1" "wf_ledger t1" by blast
  from ledger_step_permanent [OF Cons.prems t1(1)] obtain r1
    where r1: "(i, r1) \<in> set t1" "same_event r r1" "permanent r1"
      "marks (paddleEventId r) x \<or> r1 = r" by blast
  from Cons.IH [OF t1(2) r1(1) r1(3)] obtain t' r'
    where r': "ledger_run xs t1 = Inr t'" "wf_ledger t'" "(i, r') \<in> set t'"
      "same_event r1 r'" "permanent r'" "list_ex (marks (paddleEventId r1)) xs \<or> r' = r1"
    by blast
  have "same_event r r'"
    using r1(2) r'(4) by (simp add: same_event_def)
  moreover have "list_ex (marks (paddleEventId r)) (x # xs) \<or> r' = r"
    using r1(2,4) r'(6) by (auto simp: same_event_def)
  ultimately show ?case
    using t1(1) r' by auto
qed

lemma reachable_ledger_wf: "\<exists>t. ledger_run xs [] = Inr t \<and> wf_ledger t"
  using ledger_run_wf [of "[]" xs] by (simp add: wf_ledger_def)

lemma by_paddle_event_id_Some_wf:
  assumes "wf_ledger t"
  shows "(by_paddle_event_id eid t = Inr (Some (i, r))) = ((i, r) \<in> set t \<and> paddleEventId r = eid)"
  by (simp add: by_paddle_event_id_wf [OF assms] lookup_event_iff [OF assms])

lemma checkAndRecordEvent_acquired:
  assumes wf: "wf_ledger t" and res: "checkAndRecordEvent now eid ety occ t = Inr (False, t')"
  shows "wf_ledger t' \<and>
      (\<exists>j. by_paddle_event_id eid t' = Inr (Some (j, processing_lock now eid ety occ)))"
proof -
  let ?lock = "processing_lock now eid ety occ"
  have key: "paddleEventId ?lock = eid"
    by (simp add: processing_lock_def)
  obtain u where u: "t' = db_insert ?lock u" "wf_ledger u" "lookup_event eid u = None"
  proof (cases "lookup_event eid t")
    case None
    then show ?thesis
      using that [of t] wf res by (simp add: checkAndRecordEvent_wf)
  next
    case (Some a)
    obtain j e where a: "a = (j, e)" by (cases a)
    show ?thesis
      using that [of "db_delete j t"] wf res Some a wf_db_delete [OF wf, of j]
        lookup_after_delete [OF wf, of eid j e]
      by (simp add: checkAndRecordEvent_wf split: if_splits)
  qed
  have wf': "wf_ledger t'"
    using wf_db_insert [OF u(2), of ?lock] u(1,3) key by simp
  have "(fresh_id u, ?lock) \<in> set t'"
    using u(1) by (simp add: set_db_insert)
  then have "by_paddle_event_id eid t' = Inr (Some (fresh_id u, ?lock))"
    using key by (simp add: by_paddle_event_id_Some_wf [OF wf'])
  then show ?thesis
    using wf' by blast
qed

section \<open>The claims about the event ledger\<close>

text \<open>
  Claim C1 (permanence).  Take a ledger with distinct document ids and one record per
  event id (every ledger the mutations produce from the empty table is such a ledger), in
  which the record of an event id has status \<open>processed\<close> or \<open>processed_pending\<close>.
  After any sequence of the three ledger
  mutations (any event ids, any clock values), a call of \<open>checkAndRecordEvent\<close> for that
  event id returns \<open>true\<close> (ALREADY_DONE) whatever the clock says, and both
  \<open>checkAndRecordEvent\<close> and \<open>unreserveEvent\<close> return the table exactly as they found it:
  the record is neither deleted nor modified by them.
\<close>

theorem permanence_of_processed_events:
  assumes "wf_ledger t"
    and "by_paddle_event_id eid t = Inr (Some (i, r))"
    and "status r = Some Processed \<or> status r = Some Processed_pending"
  shows "\<exists>t'. ledger_run xs t = Inr t' \<and>
           checkAndRecordEvent now eid ety occ t' = Inr (True, t') \<and>
           unreserveEvent eid t' = Inr t'"
proof -
  have mem: "(i, r) \<in> set t" and key: "paddleEventId r = eid"
    using assms(1,2) by (simp_all add: by_paddle_event_id_Some_wf)
  have perm: "permanent r"
    using assms(3) by (simp add: permanent_def)
  from ledger_run_permanent [OF assms(1) mem perm, of xs] obtain t' r'
    where r': "ledger_run xs t = Inr t'" "wf_ledger t'" "(i, r') \<in> set t'"
      "same_event r r'" "permanent r'" by blast
  have look: "lookup_event eid t' = Some (i, r')"
    using r'(2,3,4) key by (simp add: lookup_event_iff same_event_def)
  have "status r' \<noteq> Some Processing"
    using r'(5) by (auto simp: permanent_def)
  then show ?thesis
    using r'(1) look by (simp add: checkAndRecordEvent_wf [OF r'(2)] unreserveEvent_wf [OF r'(2)])
qed

theorem permanence_of_processed_events_witness:
  "\<exists>t'. ledger_run [Mark 2000 ''evt_1'' (Some Final_processed_pending), Unreserve ''evt_1'',
                    Check 999999999 ''evt_2'' ''customer.created'' ''2024-01-02'']
          [(0, sample_event ''evt_1'' 1000 (Some Processed))] = Inr t' \<and>
        checkAndRecordEvent 999999999999 ''evt_1'' ''subscription.created'' ''2024-01-01T00:00:00Z'' t'
          = Inr (True, t') \<and>
        unreserveEvent ''evt_1'' t' = Inr t'"
proof -
  let ?t = "[(0::nat, sample_event ''evt_1'' 1000 (Some Processed))]"
  have 1: "wf_ledger ?t"
    by (simp add: wf_ledger_def)
  have 2: "by_paddle_event_id ''evt_1'' ?t = Inr (Some (0, sample_event ''evt_1'' 1000 (Some Processed)))"
    by (simp add: by_paddle_event_id_def unique_def sample_event_def)
  have 3: "status (sample_event ''evt_1'' 1000 (Some Processed)) = Some Processed \<or>
           status (sample_event ''evt_1'' 1000 (Some Processed)) = Some Processed_pending"
    by (simp add: sample_event_def)
  show ?thesis
    using permanence_of_processed_events [OF 1 2 3] .
qed

lemma by_paddle_event_id_None_iff:
  "(by_paddle_event_id eid t = Inr None) = (\<forall>(j, r) \<in> set t. paddleEventId r \<noteq> eid)"
proof -
  have "(by_paddle_event_id eid t = Inr None) = (filter (\<lambda>(j, r). paddleEventId r = eid) t = [])"
    by (simp add: by_paddle_event_id_def unique_def split: list.splits)
  then show ?thesis
    by (auto simp: filter_empty_conv)
qed

lemma by_paddle_event_id_SomeD:
  "by_paddle_event_id eid t = Inr (Some (i, r)) \<Longrightarrow> (i, r) \<in> set t \<and> paddleEventId r = eid"
  using unique_SomeD [of "\<lambda>r. paddleEventId r = eid" t "(i, r)"]
  by (simp add: by_paddle_event_id_def)

text \<open>
  Claim C2 (admission algorithm).  \<open>LOCK_TTL_MS\<close> is ten minutes.  The lookup of
  \<open>checkAndRecordEvent\<close> finds no record exactly when no document of the table carries the
  event id, and a record it finds is a document of the table with that event id.  Then:
  no record: the table gets one more document, under an id no document has, with the
  event id, type and occurrence time of the call, status \<open>processing\<close> and
  \<open>processedAt = now\<close>, and the result is \<open>false\<close> (ACQUIRED); a record with status
  \<open>processed\<close> or \<open>processed_pending\<close>: the result is \<open>true\<close> (ALREADY_DONE) and the table
  is unchanged; a \<open>processing\<close> record with \<open>now - processedAt \<le> LOCK_TTL_MS\<close>: the result
  is \<open>true\<close> and the table is unchanged; a \<open>processing\<close> record older than that: the
  document is removed, a fresh \<open>processing\<close> document stamped \<open>now\<close> is added, and the
  result is \<open>false\<close>.  In a ledger with one record per event id, the document added on
  ACQUIRED is the record then found under the event id.
\<close>

theorem admission_algorithm:
  "LOCK_TTL_MS = 10 * 60 * 1000 \<and>
   ((by_paddle_event_id eid t = Inr None) = (\<forall>(j, r) \<in> set t. paddleEventId r \<noteq> eid)) \<and>
   (by_paddle_event_id eid t = Inr (Some (i, r)) \<longrightarrow> (i, r) \<in> set t \<and> paddleEventId r = eid) \<and>
   fresh_id t \<notin> fst ` set t \<and>
   (by_paddle_event_id eid t = Inr None \<longrightarrow>
      checkAndRecordEvent now eid ety occ t
        = Inr (False, t @ [(fresh_id t,
                 \<lparr>paddleEventId = eid, eventType = ety, occurredAt = occ, processedAt = now,
                  status = Some Processing\<rparr>)])) \<and>
   (by_paddle_event_id eid t = Inr (Some (i, r)) \<and>
    (status r = Some Processed \<or> status r = Some Processed_pending) \<longrightarrow>
      checkAndRecordEvent now eid ety occ t = Inr (True, t)) \<and>
   (by_paddle_event_id eid t = Inr (Some (i, r)) \<and> status r = Some Processing \<and>
    now - processedAt r \<le> LOCK_TTL_MS \<longrightarrow>
      checkAndRecordEvent now eid ety occ t = Inr (True, t)) \<and>
   (by_paddle_event_id eid t = Inr (Some (i, r)) \<and> status r = Some Processing \<and>
    now - processedAt r > LOCK_TTL_MS \<longrightarrow>
      checkAndRecordEvent now eid ety occ t
        = Inr (False, filter (\<lambda>(j, d). j \<noteq> i) t @
                 [(fresh_id (filter (\<lambda>(j, d). j \<noteq> i) t),
                   \<lparr>paddleEventId = eid, eventType = ety, occurredAt = occ, processedAt = now,
                    status = Some Processing\<rparr>)])) \<and>
   (wf_ledger t \<and> checkAndRecordEvent now eid ety occ t = Inr (False, t') \<longrightarrow>
      wf_ledger t' \<and>
      (\<exists>j. by_paddle_event_id eid t'
             = Inr (Some (j, \<lparr>paddleEventId = eid, eventType = ety, occurredAt = occ,
                              processedAt = now, status = Some Processing\<rparr>))))"
proof -
  have acquired: "wf_ledger t' \<and>
      (\<exists>j. by_paddle_event_id eid t'
             = Inr (Some (j, \<lparr>paddleEventId = eid, eventType = ety, occurredAt = occ,
                              processedAt = now, status = Some Processing\<rparr>)))"
    if "wf_ledger t" "checkAndRecordEvent now eid ety occ t = Inr (False, t')"
    using checkAndRecordEvent_acquired [OF that] by (simp add: processing_lock_def)
  have found: "(i, r) \<in> set t \<and> paddleEventId r = eid"
    if "by_paddle_event_id eid t = Inr (Some (i, r))"
    using by_paddle_event_id_SomeD [OF that] .
  have absent: "checkAndRecordEvent now eid ety occ t
        = Inr (False, t @ [(fresh_id t,
                 \<lparr>paddleEventId = eid, eventType = ety, occurredAt = occ, processedAt = now,
                  status = Some Processing\<rparr>)])"
    if "by_paddle_event_id eid t = Inr None"
    using that by (simp add: checkAndRecordEvent_def processing_lock_def db_insert_def)
  have already: "checkAndRecordEvent now eid ety occ t = Inr (True, t)"
    if "by_paddle_event_id eid t = Inr (Some (i, r))"
      "status r = Some Processed \<or> status r = Some Processed_pending"
    using that by (auto simp: checkAndRecordEvent_def)
  have held: "checkAndRecordEvent now eid ety occ t = Inr (True, t)"
    if "by_paddle_event_id eid t = Inr (Some (i, r))" "status r = Some Processing"
      "now - processedAt r \<le> LOCK_TTL_MS"
    using that by (simp add: checkAndRecordEvent_def)
  have stale: "checkAndRecordEvent now eid ety occ t
        = Inr (False, filter (\<lambda>(j, d). j \<noteq> i) t @
                 [(fresh_id (filter (\<lambda>(j, d). j \<noteq> i) t),
                   \<lparr>paddleEventId = eid, eventType = ety, occurredAt = occ, processedAt = now,
                    status = Some Processing\<rparr>)])"
    if "by_paddle_event_id eid t = Inr (Some (i, r))" "status r = Some Processing"
      "now - processedAt r > LOCK_TTL_MS"
    using that
    by (simp add: checkAndRecordEvent_def processing_lock_def db_insert_def db_delete_def)
  have ttl: "LOCK_TTL_MS = 10 * 60 * 1000"
    by (simp add: LOCK_TTL_MS_def)
  show ?thesis
    using ttl by_paddle_event_id_None_iff [of eid t] found fresh_id_notin [of t]
      absent already held stale acquired
    by blast
qed

theorem admission_algorithm_witness:
  "checkAndRecordEvent 5000 ''evt_1'' ''subscription.created'' ''2024-01-01T00:00:00Z'' []
     = Inr (False, [(0, \<lparr>paddleEventId = ''evt_1'', eventType = ''subscription.created'',
                          occurredAt = ''2024-01-01T00:00:00Z'', processedAt = 5000,
                          status = Some Processing\<rparr>)]) \<and>
   checkAndRecordEvent 999999999 ''evt_1'' ''subscription.created'' ''2024-01-01T00:00:00Z''
       [(0, sample_event ''evt_1'' 1000 (Some Processed_pending))]
     = Inr (True, [(0, sample_event ''evt_1'' 1000 (Some Processed_pending))]) \<and>
   checkAndRecordEvent 601000 ''evt_1'' ''subscription.created'' ''2024-01-01T00:00:00Z''
       [(0, sample_event ''evt_1'' 1000 (Some Processing))]
     = Inr (True, [(0, sample_event ''evt_1'' 1000 (Some Processing))]) \<and>
   checkAndRecordEvent 601001 ''evt_1'' ''subscription.created'' ''2024-01-01T00:00:00Z''
       [(0, sample_event ''evt_1'' 1000 (Some Processing)),
        (1, sample_event ''evt_2'' 2000 (Some Processed))]
     = Inr (False, [(1, sample_event ''evt_2'' 2000 (Some Processed)),
                    (2, \<lparr>paddleEventId = ''evt_1'', eventType = ''subscription.created'',
                          occurredAt = ''2024-01-01T00:00:00Z'', processedAt = 601001,
                          status = Some Processing\<rparr>)])"
proof -
  let ?ety = "''subscription.created''" and ?occ = "''2024-01-01T00:00:00Z''"
  let ?two = "[(0::nat, sample_event ''evt_1'' 1000 (Some Processing)),
               (1, sample_event ''evt_2'' 2000 (Some Processed))]"
  have a: "by_paddle_event_id ''evt_1'' [] = Inr None"
    by (simp add: by_paddle_event_id_def unique_def)
  have b: "by_paddle_event_id ''evt_1'' [(0, sample_event ''evt_1'' 1000 st)]
             = Inr (Some (0, sample_event ''evt_1'' 1000 st))" for st
    by (simp add: by_paddle_event_id_def unique_def sample_event_def)
  have c: "by_paddle_event_id ''evt_1'' ?two
             = Inr (Some (0, sample_event ''evt_1'' 1000 (Some Processing)))"
    by (simp add: by_paddle_event_id_def unique_def sample_event_def)
  have s: "status (sample_event ''evt_1'' 1000 st) = st"
          "processedAt (sample_event ''evt_1'' 1000 st) = 1000" for st
    by (simp_all add: sample_event_def)
  have 1: "checkAndRecordEvent 5000 ''evt_1'' ?ety ?occ []
             = Inr (False, [] @ [(fresh_id ([] :: ledger),
                 \<lparr>paddleEventId = ''evt_1'', eventType = ?ety, occurredAt = ?occ,
                  processedAt = 5000, status = Some Processing\<rparr>)])"
    using admission_algorithm [of "''evt_1''" "[]" 0 "sample_event ''evt_1'' 1000 None"
        5000 ?ety ?occ "[]"] a
    by simp
  have 2: "checkAndRecordEvent 999999999 ''evt_1'' ?ety ?occ
             [(0, sample_event ''evt_1'' 1000 (Some Processed_pending))]
           = Inr (True, [(0, sample_event ''evt_1'' 1000 (Some Processed_pending))])"
    using admission_algorithm [of "''evt_1''"
        "[(0, sample_event ''evt_1'' 1000 (Some Processed_pending))]"
        0 "sample_event ''evt_1'' 1000 (Some Processed_pending)" 999999999 ?ety ?occ "[]"] b s
    by simp
  have 3: "checkAndRecordEvent 601000 ''evt_1'' ?ety ?occ
             [(0, sample_event ''evt_1'' 1000 (Some Processing))]
           = Inr (True, [(0, sample_event ''evt_1'' 1000 (Some Processing))])"
    using admission_algorithm [of "''evt_1''"
        "[(0, sample_event ''evt_1'' 1000 (Some Processing))]"
        0 "sample_event ''evt_1'' 1000 (Some Processing)" 601000 ?ety ?occ "[]"] b s
    by (simp add: LOCK_TTL_MS_def)
  have 4: "checkAndRecordEvent 601001 ''evt_1'' ?ety ?occ ?two
           = Inr (False, filter (\<lambda>(j, d). j \<noteq> 0) ?two @
                 [(fresh_id (filter (\<lambda>(j, d). j \<noteq> 0) ?two),
                   \<lparr>paddleEventId = ''evt_1'', eventType = ?ety, occurredAt = ?occ,
                    processedAt = 601001, status = Some Processing\<rparr>)])"
    using admission_algorithm [of "''evt_1''" ?two
        0 "sample_event ''evt_1'' 1000 (Some Processing)" 601001 ?ety ?occ "[]"] c s
    by (simp add: LOCK_TTL_MS_def)
  show ?thesis
    using 1 2 3 4 by (simp add: fresh_id_def)
qed

text \<open>
  Claim C3, as stated, fails: \<open>markEventProcessed\<close> patches whatever record it finds, so
  a \<open>processed\<close> record becomes \<open>processed_pending\<close> (and its \<open>processedAt\<close> is
  rewritten) when the mutation is called with that status.
\<close>

theorem permanent_status_rewritten_by_mark:
  "ledger_run [Mark 2000 ''evt_1'' (Some Final_processed_pending)]
     [(0, sample_event ''evt_1'' 1000 (Some Processed))]
   = Inr [(0, sample_event ''evt_1'' 2000 (Some Processed_pending))]"
  by (simp add: markEventProcessed_def by_paddle_event_id_def unique_def db_patch_def
      sample_event_def)

lemma apply_mark_same_event: "same_event r (apply_mark eid x r)"
  by (cases x) (simp_all add: same_event_def)

lemma target_status_permanent:
  "target_status st = Processed \<or> target_status st = Processed_pending"
proof (cases st)
  case None
  then show ?thesis by (simp add: target_status_def)
next
  case (Some f)
  then show ?thesis by (cases f) (simp_all add: target_status_def)
qed

lemma apply_mark_permanent: "permanent r \<Longrightarrow> permanent (apply_mark eid x r)"
  using target_status_permanent by (cases x) (auto simp: permanent_def)

lemma apply_mark_unmarked: "\<not> marks eid x \<Longrightarrow> apply_mark eid x r = r"
  by (cases x) simp_all

lemma ledger_step_exact:
  assumes wf: "wf_ledger t" and mem: "(i, r) \<in> set t" and perm: "permanent r"
    and step: "ledger_step x t = Inr t'"
  shows "(i, apply_mark (paddleEventId r) x r) \<in> set t'"
proof (cases "marks (paddleEventId r) x")
  case False
  from ledger_step_permanent [OF wf mem perm step] False obtain r'
    where "(i, r') \<in> set t'" "r' = r" by blast
  then show ?thesis
    using False by (simp add: apply_mark_unmarked)
next
  case True
  then obtain at st where x: "x = Mark at (paddleEventId r) st"
    by (cases x) simp_all
  have look: "lookup_event (paddleEventId r) t = Some (i, r)"
    using mem by (simp add: lookup_event_iff [OF wf])
  have "t' = db_patch i (\<lambda>r. r\<lparr>status := Some (target_status st), processedAt := at\<rparr>) t"
    using step x look by (simp add: markEventProcessed_wf [OF wf] target_status_def)
  then have "(i, r\<lparr>status := Some (target_status st), processedAt := at\<rparr>) \<in> set t'"
    using mem by (force simp: set_db_patch)
  then show ?thesis
    using x by simp
qed

lemma ledger_run_exact:
  assumes "wf_ledger t" "(i, r) \<in> set t" "permanent r"
  shows "\<exists>t'. ledger_run xs t = Inr t' \<and> wf_ledger t' \<and>
           (i, fold (apply_mark (paddleEventId r)) xs r) \<in> set t'"
  using assms
proof (induction xs arbitrary: t r)
  case Nil
  then show ?case by simp
next
  case (Cons x xs)
  let ?r1 = "apply_mark (paddleEventId r) x r"
  from ledger_step_wf [OF Cons.prems(1), of x] obtain t1
    where t1: "ledger_step x t = Inr t1" "wf_ledger t1" by blast
  have mem1: "(i, ?r1) \<in> set t1"
    using ledger_step_exact [OF Cons.prems t1(1)] .
  have perm1: "permanent ?r1"
    using apply_mark_permanent [OF Cons.prems(3)] .
  have key1: "paddleEventId ?r1 = paddleEventId r"
    using apply_mark_same_event [of r "paddleEventId r" x] by (simp add: same_event_def)
  from Cons.IH [OF t1(2) mem1 perm1] key1 t1(1) show ?case
    by simp
qed

lemma fold_apply_mark_same_event: "same_event r (fold (apply_mark eid) xs r)"
proof (induction xs arbitrary: r)
  case Nil
  then show ?case by (simp add: same_event_def)
next
  case (Cons x xs)
  from Cons [of "apply_mark eid x r"] apply_mark_same_event [of r eid x] show ?case
    by (simp add: same_event_def)
qed

lemma fold_apply_mark_permanent: "permanent r \<Longrightarrow> permanent (fold (apply_mark eid) xs r)"
  by (induction xs arbitrary: r) (simp_all add: apply_mark_permanent)

lemma fold_apply_mark_unmarked:
  "\<not> list_ex (marks eid) xs \<Longrightarrow> fold (apply_mark eid) xs r = r"
  by (induction xs arbitrary: r) (simp_all add: apply_mark_unmarked)

lemma apply_mark_status:
  "\<not> rewrites_status eid (status r) x \<Longrightarrow> status (apply_mark eid x r) = status r"
  by (cases x) auto

lemma fold_apply_mark_status:
  "status (fold (apply_mark eid) xs r) = status r \<or> list_ex (rewrites_status eid (status r)) xs"
proof (induction xs arbitrary: r)
  case Nil
  then show ?case by simp
next
  case (Cons x xs)
  show ?case
  proof (cases "rewrites_status eid (status r) x")
    case True
    then show ?thesis by simp
  next
    case False
    then have "status (apply_mark eid x r) = status r"
      by (rule apply_mark_status)
    with Cons [of "apply_mark eid x r"] show ?thesis
      by auto
  qed
qed

text \<open>
  Claim C3, amended.  From a ledger with distinct document ids and one record per event
  id, in which the record of an event id is permanent, every sequence of calls of the
  three ledger mutations succeeds and leaves a record for that event id under the same
  document id: the original record with the \<open>markEventProcessed\<close> calls for that event id
  applied to it in order.  So the record is never deleted and never \<open>processing\<close> again,
  its event type and occurrence time stay, and its status stays exactly as it was unless
  \<open>markEventProcessed\<close> is called for that event id with the other permanent status; the
  whole record is the very same unless \<open>markEventProcessed\<close> is called for the event id.
\<close>

theorem permanent_records_stay_permanent:
  assumes "wf_ledger t"
    and "by_paddle_event_id eid t = Inr (Some (i, r))"
    and "status r = Some Processed \<or> status r = Some Processed_pending"
  shows "\<exists>t' r'. ledger_run xs t = Inr t' \<and>
           by_paddle_event_id eid t' = Inr (Some (i, r')) \<and>
           r' = fold (apply_mark eid) xs r \<and>
           (status r' = Some Processed \<or> status r' = Some Processed_pending) \<and>
           eventType r' = eventType r \<and> occurredAt r' = occurredAt r \<and>
           (status r' = status r \<or> list_ex (rewrites_status eid (status r)) xs) \<and>
           (list_ex (marks eid) xs \<or> r' = r)"
proof -
  have mem: "(i, r) \<in> set t" and key: "paddleEventId r = eid"
    using assms(1,2) by (simp_all add: by_paddle_event_id_Some_wf)
  have perm: "permanent r"
    using assms(3) by (simp add: permanent_def)
  let ?r' = "fold (apply_mark eid) xs r"
  from ledger_run_exact [OF assms(1) mem perm, of xs] key obtain t'
    where t': "ledger_run xs t = Inr t'" "wf_ledger t'" "(i, ?r') \<in> set t'" by auto
  have same: "same_event r ?r'"
    using fold_apply_mark_same_event .
  have found: "by_paddle_event_id eid t' = Inr (Some (i, ?r'))"
    using t'(2,3) same key by (simp add: by_paddle_event_id_Some_wf same_event_def)
  have "permanent ?r'"
    using fold_apply_mark_permanent [OF perm] .
  then have p: "status ?r' = Some Processed \<or> status ?r' = Some Processed_pending"
    by (simp add: permanent_def)
  have u: "list_ex (marks eid) xs \<or> ?r' = r"
    using fold_apply_mark_unmarked [of eid xs r] by blast
  show ?thesis
    using t'(1) found p same fold_apply_mark_status [of eid xs r] u
    by (auto simp: same_event_def)
qed

theorem permanent_records_stay_permanent_witness:
  "\<exists>t' r'. ledger_run [Check 999999999 ''evt_1'' ''subscription.created'' ''2024-01-01T00:00:00Z'',
                       Mark 5000 ''evt_1'' None,
                       Unreserve ''evt_1'', Check 999999999 ''evt_2'' ''customer.created'' ''2024-01-02'',
                       Mark 999999999 ''evt_2'' (Some Final_processed_pending), Unreserve ''evt_2'']
             [(0, sample_event ''evt_1'' 1000 (Some Processed))] = Inr t' \<and>
           by_paddle_event_id ''evt_1'' t' = Inr (Some (0, r')) \<and>
           r' = sample_event ''evt_1'' 5000 (Some Processed)"
proof -
  let ?r = "sample_event ''evt_1'' 1000 (Some Processed)"
  let ?xs = "[Check 999999999 ''evt_1'' ''subscription.created'' ''2024-01-01T00:00:00Z'',
              Mark 5000 ''evt_1'' None,
              Unreserve ''evt_1'', Check 999999999 ''evt_2'' ''customer.created'' ''2024-01-02'',
              Mark 999999999 ''evt_2'' (Some Final_processed_pending), Unreserve ''evt_2'']"
  have 1: "wf_ledger [(0, ?r)]"
    by (simp add: wf_ledger_def)
  have 2: "by_paddle_event_id ''evt_1'' [(0, ?r)] = Inr (Some (0, ?r))"
    by (simp add: by_paddle_event_id_def unique_def sample_event_def)
  have 3: "status ?r = Some Processed \<or> status ?r = Some Processed_pending"
    by (simp add: sample_event_def)
  have 4: "fold (apply_mark ''evt_1'') ?xs ?r = sample_event ''evt_1'' 5000 (Some Processed)"
    by (simp add: sample_event_def target_status_def)
  from permanent_records_stay_permanent [OF 1 2 3, of ?xs] 4 show ?thesis
    by metis
qed

text \<open>
  Claim C9 (records without a status).  A ledger record whose optional \<open>status\<close> field
  is absent is handled as a permanently processed one: \<open>checkAndRecordEvent\<close> returns
  \<open>true\<close> whatever the clock says and returns the table unchanged, and \<open>unreserveEvent\<close>
  returns the table unchanged, so it never deletes the record.
\<close>

theorem absent_status_is_permanent:
  assumes "by_paddle_event_id eid t = Inr (Some (i, r))" and "status r = None"
  shows "checkAndRecordEvent now eid ety occ t = Inr (True, t) \<and> unreserveEvent eid t = Inr t"
  using assms by (simp add: checkAndRecordEvent_def unreserveEvent_def)

theorem absent_status_is_permanent_witness:
  "checkAndRecordEvent 999999999999 ''evt_0'' ''transaction.completed'' ''2023-05-05''
     [(0, sample_event ''evt_0'' 1000 None)] = Inr (True, [(0, sample_event ''evt_0'' 1000 None)]) \<and>
   unreserveEvent ''evt_0'' [(0, sample_event ''evt_0'' 1000 None)]
     = Inr [(0, sample_event ''evt_0'' 1000 None)]"
proof -
  have 1: "by_paddle_event_id ''evt_0'' [(0, sample_event ''evt_0'' 1000 None)]
             = Inr (Some (0, sample_event ''evt_0'' 1000 None))"
    by (simp add: by_paddle_event_id_def unique_def sample_event_def)
  have 2: "status (sample_event ''evt_0'' 1000 None) = None"
    by (simp add: sample_event_def)
  show ?thesis
    using absent_status_is_permanent [OF 1 2] .
qed

section \<open>The claims about the signature verifier\<close>

lemma xor_int_eq_0: "((a::int) XOR b = 0) = (a = b)"
  by (metis xor.assoc xor_self_eq xor.right_neutral xor.left_neutral)

lemma fold_xor_accumulate:
  "length a = length b \<Longrightarrow>
   (fold (\<lambda>(x, y) r. r OR (of_char x XOR of_char y)) (zip a b) (r::int) = 0) = (r = 0 \<and> a = b)"
proof (induction a b arbitrary: r rule: list_induct2)
  case Nil
  then show ?case by simp
next
  case (Cons x xs y ys)
  then show ?case
    by (auto simp: or_eq_0_iff xor_int_eq_0)
qed

lemma xor_accumulate_eq: "length a = length b \<Longrightarrow> (xor_accumulate a b = 0) = (a = b)"
  by (simp add: xor_accumulate_def fold_xor_accumulate)

lemma hex_digit_lowercase: "n < 16 \<Longrightarrow> hex_digit n \<in> set ''0123456789abcdef''"
  unfolding hex_digit_def by (rule nth_mem) simp

lemma hex_of_byte:
  assumes "n < 256"
  shows "length (padStart 2 CHR ''0'' (toString16 n)) = 2 \<and>
         set (padStart 2 CHR ''0'' (toString16 n)) \<subseteq> set ''0123456789abcdef''"
proof (cases "n < 16")
  case True
  then show ?thesis
    using hex_digit_lowercase [of n] by (simp add: padStart_def toString16_def)
next
  case False
  have "n div 16 < 16" using assms by simp
  then show ?thesis
    using False hex_digit_lowercase [of "n div 16"] hex_digit_lowercase [of "n mod 16"]
    by (simp add: padStart_def toString16_def)
qed

lemma hex_encode_lowercase:
  "length (hex_encode bytes) = 2 * length bytes \<and>
   set (hex_encode bytes) \<subseteq> set ''0123456789abcdef''"
proof (induction bytes)
  case Nil
  then show ?case by (simp add: hex_encode_def)
next
  case (Cons b bytes)
  have "unat b < 256"
    using unsigned_less [of b, where ?'a = nat] by simp
  from hex_of_byte [OF this] Cons show ?case
    by (simp add: hex_encode_def)
qed

lemma split_on_no_separator: "c \<notin> set a \<Longrightarrow> split_on c a = [a]"
  by (induction a) auto

lemma split_on_at_separator: "c \<notin> set a \<Longrightarrow> split_on c (a @ c # b) = a # split_on c b"
  by (induction a) auto

lemma split_on_first: "\<exists>rest. split_on c v = takeWhile (\<lambda>x. x \<noteq> c) v # rest"
  by (induction v) (auto split: list.splits)

lemma startsWith_iff: "startsWith s p = (\<exists>r. s = p @ r)"
  unfolding startsWith_def by (metis append_eq_conv_conj append_take_drop_id)

lemma field_value_after_key:
  assumes "startsWith f [k1, k2, CHR ''='']" "k1 \<noteq> CHR ''=''" "k2 \<noteq> CHR ''=''"
  shows "field_value f = Some (takeWhile (\<lambda>c. c \<noteq> CHR ''='') (drop 3 f))"
proof -
  from assms(1) obtain r where f: "f = [k1, k2] @ CHR ''='' # r"
    by (auto simp: startsWith_iff)
  have "split_on CHR ''='' f = [k1, k2] # split_on CHR ''='' r"
    unfolding f using assms(2,3) by (intro split_on_at_separator) simp
  moreover obtain rest where "split_on CHR ''='' r = takeWhile (\<lambda>c. c \<noteq> CHR ''='') r # rest"
    using split_on_first by blast
  ultimately show ?thesis
    by (simp add: field_value_def f)
qed

lemma find_SomeD: "find P xs = Some x \<Longrightarrow> P x"
  by (induction xs) (auto split: if_splits)

lemma verify_iff_field_value:
  "verifyPaddleWebhookSignature hmac now_ms rawBody secret signatureHeader =
     (\<exists>tsField h1Field ts h1 tsSeconds signatureBytes.
        find (\<lambda>p. startsWith p ''ts='') (split_on CHR '';'' signatureHeader) = Some tsField \<and>
        find (\<lambda>p. startsWith p ''h1='') (split_on CHR '';'' signatureHeader) = Some h1Field \<and>
        field_value tsField = Some ts \<and> field_value h1Field = Some h1 \<and>
        ts \<noteq> [] \<and> h1 \<noteq> [] \<and>
        parseInt ts = Some tsSeconds \<and> \<bar>now_ms div 1000 - tsSeconds\<bar> \<le> 300 \<and>
        hmac secret (ts @ '':'' @ rawBody) = Some signatureBytes \<and>
        h1 = hex_encode signatureBytes)"
  by (auto simp: verifyPaddleWebhookSignature_def Let_def xor_accumulate_eq
      WEBHOOK_MAX_AGE_SECONDS_def split: option.splits)

lemma is_digit_not_space: "is_digit c \<Longrightarrow> \<not> is_white_space c"
  by (auto simp: is_digit_def is_white_space_def)

lemma is_digit_not_sign: "is_digit c \<Longrightarrow> c \<noteq> CHR ''+'' \<and> c \<noteq> CHR ''-''"
  by (auto simp: is_digit_def)

lemma digits_value_snoc:
  "digits_value (ds @ [d]) = 10 * digits_value ds + (int (of_char d) - 48)"
  by (simp add: digits_value_def)

lemma dropWhile_prefix:
  "\<forall>c \<in> set ws. P c \<Longrightarrow> xs = [] \<or> \<not> P (hd xs) \<Longrightarrow> dropWhile P (ws @ xs) = xs"
proof (induction ws)
  case Nil
  then show ?case by (cases xs) auto
next
  case (Cons w ws)
  then show ?case by simp
qed

lemma takeWhile_prefix:
  "\<forall>c \<in> set ds. P c \<Longrightarrow> xs = [] \<or> \<not> P (hd xs) \<Longrightarrow> takeWhile P (ds @ xs) = ds"
proof (induction ds)
  case Nil
  then show ?case by (cases xs) auto
next
  case (Cons d ds)
  then show ?case by simp
qed

lemma sign_not_space: "\<not> is_white_space CHR ''+''" "\<not> is_white_space CHR ''-''"
  by (simp_all add: is_white_space_def)

lemma parseInt_some:
  assumes ws: "\<forall>c \<in> set ws. is_white_space c"
    and sg: "sg = [] \<or> sg = ''+'' \<or> sg = ''-''"
    and ds: "ds \<noteq> []" "\<forall>c \<in> set ds. is_digit c"
    and rest: "rest = [] \<or> \<not> is_digit (hd rest)"
  shows "parseInt (ws @ sg @ ds @ rest)
           = Some (if sg = ''-'' then - digits_value ds else digits_value ds)"
proof -
  obtain d ds' where dd: "ds = d # ds'"
    using ds(1) by (cases ds) auto
  have d: "is_digit d"
    using ds(2) dd by simp
  have z: "takeWhile is_digit (ds @ rest) = ds"
    using takeWhile_prefix [OF ds(2) rest] .
  have s1: "dropWhile is_white_space (ws @ sg @ ds @ rest) = sg @ ds @ rest"
  proof (rule dropWhile_prefix [OF ws])
    show "sg @ ds @ rest = [] \<or> \<not> is_white_space (hd (sg @ ds @ rest))"
      using sg is_digit_not_space [OF d] sign_not_space by (auto simp: dd)
  qed
  from sg show ?thesis
  proof (elim disjE)
    assume "sg = []"
    then show ?thesis
      unfolding parseInt_def s1 using z is_digit_not_sign [OF d] ds(1) by (simp add: dd)
  next
    assume "sg = ''+''"
    then show ?thesis
      unfolding parseInt_def s1 using z ds(1) by simp
  next
    assume "sg = ''-''"
    then show ?thesis
      unfolding parseInt_def s1 using z ds(1) by simp
  qed
qed

lemma parseInt_none:
  assumes ws: "\<forall>c \<in> set ws. is_white_space c"
    and sg: "sg = [] \<or> sg = ''+'' \<or> sg = ''-''"
    and rest: "rest = [] \<or> \<not> is_digit (hd rest)"
    and plain: "sg = [] \<and> rest \<noteq> [] \<longrightarrow>
                  \<not> is_white_space (hd rest) \<and> hd rest \<noteq> CHR ''+'' \<and> hd rest \<noteq> CHR ''-''"
  shows "parseInt (ws @ sg @ rest) = None"
proof -
  have z: "takeWhile is_digit rest = []"
    using rest by (cases rest) auto
  have s1: "dropWhile is_white_space (ws @ sg @ rest) = sg @ rest"
  proof (rule dropWhile_prefix [OF ws])
    show "sg @ rest = [] \<or> \<not> is_white_space (hd (sg @ rest))"
      using sg plain sign_not_space by (cases rest) auto
  qed
  from sg show ?thesis
  proof (elim disjE)
    assume e: "sg = []"
    show ?thesis
    proof (cases rest)
      case Nil
      then show ?thesis
        unfolding parseInt_def s1 using e by simp
    next
      case (Cons x xs)
      then show ?thesis
        unfolding parseInt_def s1 using e z plain by simp
    qed
  next
    assume "sg = ''+''"
    then show ?thesis
      unfolding parseInt_def s1 using z by simp
  next
    assume "sg = ''-''"
    then show ?thesis
      unfolding parseInt_def s1 using z by simp
  qed
qed

lemma hex_encode_Cons:
  "hex_encode (b # bs) =
     [''0123456789abcdef'' ! (unat b div 16), ''0123456789abcdef'' ! (unat b mod 16)] @ hex_encode bs"
proof (cases "unat b < 16")
  case True
  then show ?thesis
    by (simp add: hex_encode_def padStart_def toString16_def hex_digit_def)
next
  case False
  then show ?thesis
    by (simp add: hex_encode_def padStart_def toString16_def hex_digit_def)
qed

text \<open>
  Claim C4, as stated, fails: the verifier reads the value of a field as the text between
  its first and its second \<open>=\<close>, and reads the timestamp with \<open>parseInt\<close>.  It accepts a
  header whose \<open>h1\<close> field is the digest followed by \<open>=zz\<close> (so the field's value is not
  the digest), and one whose \<open>ts\<close> field is the digits of the timestamp followed by \<open>abc\<close>
  (which is not an integer), signed as such.
\<close>

theorem lenient_header_accepted:
  "verifyPaddleWebhookSignature sample_hmac 1700000100000 ''{}'' ''sk''
     ''ts=1700000000;h1=736b0d0f=zz'' \<and>
   hex_encode (the (sample_hmac ''sk'' ''1700000000:{}'')) = ''736b0d0f'' \<and>
   drop 3 ''h1=736b0d0f=zz'' = ''736b0d0f=zz'' \<and>
   verifyPaddleWebhookSignature sample_hmac 1700000100000 ''{}'' ''sk''
     ''ts=1700000000abc;h1=736b100f'' \<and>
   hex_encode (the (sample_hmac ''sk'' ''1700000000abc:{}'')) = ''736b100f''"
  by (simp add: verifyPaddleWebhookSignature_def startsWith_def field_value_def parseInt_def
      is_white_space_def is_digit_def digits_value_def sample_hmac_def hex_encode_def
      padStart_def toString16_def hex_digit_def xor_accumulate_def WEBHOOK_MAX_AGE_SECONDS_def)

text \<open>
  Claim C4, amended.  \<open>verifyPaddleWebhookSignature\<close> is a total function into the
  booleans (every failure of parsing or of the cryptographic calls is the result \<open>false\<close>).
  It returns \<open>true\<close> exactly when the header, split at every \<open>;\<close>, has a part that starts
  with \<open>ts=\<close> and a part that starts with \<open>h1=\<close>; the values \<open>ts\<close> and \<open>h1\<close> of the first
  such parts, read from behind the key up to the next \<open>=\<close> or the end of the part, are not
  empty; \<open>parseInt\<close> reads an integer from \<open>ts\<close> that is at most 300 away from the current
  time in whole seconds; and \<open>h1\<close> is the hexadecimal string of the HMAC of \<open>ts:rawBody\<close>
  under the secret.  The remaining conjuncts say what the parts of this mean: how a
  string is split at a separator, what starting with a key is, that \<open>parseInt\<close> skips
  leading white space, reads one sign and then the run of decimal digits as its decimal
  value, ignores what follows, and reads nothing when no digit stands there, and that the
  hexadecimal string has two lower-case digits for every byte, high digit first.
\<close>

theorem signature_verification_iff:
  "verifyPaddleWebhookSignature hmac now_ms rawBody secret signatureHeader =
     (\<exists>tsField h1Field ts h1 tsSeconds signatureBytes.
        find (\<lambda>p. startsWith p ''ts='') (split_on CHR '';'' signatureHeader) = Some tsField \<and>
        find (\<lambda>p. startsWith p ''h1='') (split_on CHR '';'' signatureHeader) = Some h1Field \<and>
        ts = takeWhile (\<lambda>c. c \<noteq> CHR ''='') (drop 3 tsField) \<and>
        h1 = takeWhile (\<lambda>c. c \<noteq> CHR ''='') (drop 3 h1Field) \<and>
        ts \<noteq> [] \<and> h1 \<noteq> [] \<and>
        parseInt ts = Some tsSeconds \<and> \<bar>now_ms div 1000 - tsSeconds\<bar> \<le> 300 \<and>
        hmac secret (ts @ '':'' @ rawBody) = Some signatureBytes \<and>
        h1 = hex_encode signatureBytes) \<and>
   (sep \<notin> set a \<longrightarrow> split_on sep a = [a] \<and> split_on sep (a @ sep # b) = a # split_on sep b) \<and>
   startsWith s p = (\<exists>r. s = p @ r) \<and>
   ((\<forall>c \<in> set ws. is_white_space c) \<and> (sg = [] \<or> sg = ''+'' \<or> sg = ''-'') \<and>
    ds \<noteq> [] \<and> (\<forall>c \<in> set ds. is_digit c) \<and> (rest = [] \<or> \<not> is_digit (hd rest)) \<longrightarrow>
      parseInt (ws @ sg @ ds @ rest)
        = Some (if sg = ''-'' then - digits_value ds else digits_value ds)) \<and>
   ((\<forall>c \<in> set ws. is_white_space c) \<and> (sg = [] \<or> sg = ''+'' \<or> sg = ''-'') \<and>
    (rest = [] \<or> \<not> is_digit (hd rest)) \<and>
    (sg = [] \<and> rest \<noteq> [] \<longrightarrow>
       \<not> is_white_space (hd rest) \<and> hd rest \<noteq> CHR ''+'' \<and> hd rest \<noteq> CHR ''-'') \<longrightarrow>
      parseInt (ws @ sg @ rest) = None) \<and>
   digits_value [] = 0 \<and>
   digits_value (ds @ [d]) = 10 * digits_value ds + (int (of_char d) - 48) \<and>
   is_digit d = (48 \<le> (of_char d :: nat) \<and> (of_char d :: nat) \<le> 57) \<and>
   is_white_space d = ((of_char d :: nat) \<in> {9, 10, 11, 12, 13, 32, 160}) \<and>
   hex_encode [] = [] \<and>
   hex_encode (byte # bs) =
     [''0123456789abcdef'' ! (unat byte div 16), ''0123456789abcdef'' ! (unat byte mod 16)]
     @ hex_encode bs \<and>
   length (hex_encode bs) = 2 * length bs \<and>
   set (hex_encode bs) \<subseteq> set ''0123456789abcdef''"
proof -
  have ts: "field_value f = Some (takeWhile (\<lambda>c. c \<noteq> CHR ''='') (drop 3 f))"
    if "find (\<lambda>p. startsWith p ''ts='') parts = Some f" for f parts
    by (rule field_value_after_key [OF find_SomeD [OF that]]) simp_all
  have h1: "field_value f = Some (takeWhile (\<lambda>c. c \<noteq> CHR ''='') (drop 3 f))"
    if "find (\<lambda>p. startsWith p ''h1='') parts = Some f" for f parts
    by (rule field_value_after_key [OF find_SomeD [OF that]]) simp_all
  have main: "verifyPaddleWebhookSignature hmac now_ms rawBody secret signatureHeader =
     (\<exists>tsField h1Field ts h1 tsSeconds signatureBytes.
        find (\<lambda>p. startsWith p ''ts='') (split_on CHR '';'' signatureHeader) = Some tsField \<and>
        find (\<lambda>p. startsWith p ''h1='') (split_on CHR '';'' signatureHeader) = Some h1Field \<and>
        ts = takeWhile (\<lambda>c. c \<noteq> CHR ''='') (drop 3 tsField) \<and>
        h1 = takeWhile (\<lambda>c. c \<noteq> CHR ''='') (drop 3 h1Field) \<and>
        ts \<noteq> [] \<and> h1 \<noteq> [] \<and>
        parseInt ts = Some tsSeconds \<and> \<bar>now_ms div 1000 - tsSeconds\<bar> \<le> 300 \<and>
        hmac secret (ts @ '':'' @ rawBody) = Some signatureBytes \<and>
        h1 = hex_encode signatureBytes)"
    (is "?lhs = ?rhs")
  proof
    assume ?lhs
    then obtain tsField h1Field ts h1 tsSeconds signatureBytes where o:
      "find (\<lambda>p. startsWith p ''ts='') (split_on CHR '';'' signatureHeader) = Some tsField"
      "find (\<lambda>p. startsWith p ''h1='') (split_on CHR '';'' signatureHeader) = Some h1Field"
      "field_value tsField = Some ts" "field_value h1Field = Some h1"
      "ts \<noteq> []" "h1 \<noteq> []"
      "parseInt ts = Some tsSeconds" "\<bar>now_ms div 1000 - tsSeconds\<bar> \<le> 300"
      "hmac secret (ts @ '':'' @ rawBody) = Some signatureBytes"
      "h1 = hex_encode signatureBytes"
      unfolding verify_iff_field_value by blast
    have "ts = takeWhile (\<lambda>c. c \<noteq> CHR ''='') (drop 3 tsField)"
      using ts [OF o(1)] o(3) by simp
    moreover have "h1 = takeWhile (\<lambda>c. c \<noteq> CHR ''='') (drop 3 h1Field)"
      using h1 [OF o(2)] o(4) by simp
    ultimately show ?rhs
      using o(1,2,5,6,7,8,9,10) by blast
  next
    assume ?rhs
    then obtain tsField h1Field ts h1 tsSeconds signatureBytes where n:
      "find (\<lambda>p. startsWith p ''ts='') (split_on CHR '';'' signatureHeader) = Some tsField"
      "find (\<lambda>p. startsWith p ''h1='') (split_on CHR '';'' signatureHeader) = Some h1Field"
      "ts = takeWhile (\<lambda>c. c \<noteq> CHR ''='') (drop 3 tsField)"
      "h1 = takeWhile (\<lambda>c. c \<noteq> CHR ''='') (drop 3 h1Field)"
      "ts \<noteq> []" "h1 \<noteq> []"
      "parseInt ts = Some tsSeconds" "\<bar>now_ms div 1000 - tsSeconds\<bar> \<le> 300"
      "hmac secret (ts @ '':'' @ rawBody) = Some signatureBytes"
      "h1 = hex_encode signatureBytes"
      by blast
    have "field_value tsField = Some ts"
      using ts [OF n(1)] n(3) by simp
    moreover have "field_value h1Field = Some h1"
      using h1 [OF n(2)] n(4) by simp
    ultimately show ?lhs
      unfolding verify_iff_field_value using n(1,2,5,6,7,8,9,10) by blast
  qed
  have split: "sep \<notin> set a \<longrightarrow>
      split_on sep a = [a] \<and> split_on sep (a @ sep # b) = a # split_on sep b"
    by (simp add: split_on_no_separator split_on_at_separator)
  have some: "(\<forall>c \<in> set ws. is_white_space c) \<and> (sg = [] \<or> sg = ''+'' \<or> sg = ''-'') \<and>
    ds \<noteq> [] \<and> (\<forall>c \<in> set ds. is_digit c) \<and> (rest = [] \<or> \<not> is_digit (hd rest)) \<longrightarrow>
      parseInt (ws @ sg @ ds @ rest)
        = Some (if sg = ''-'' then - digits_value ds else digits_value ds)"
    using parseInt_some [of ws sg ds rest] by blast
  have none: "(\<forall>c \<in> set ws. is_white_space c) \<and> (sg = [] \<or> sg = ''+'' \<or> sg = ''-'') \<and>
    (rest = [] \<or> \<not> is_digit (hd rest)) \<and>
    (sg = [] \<and> rest \<noteq> [] \<longrightarrow>
       \<not> is_white_space (hd rest) \<and> hd rest \<noteq> CHR ''+'' \<and> hd rest \<noteq> CHR ''-'') \<longrightarrow>
      parseInt (ws @ sg @ rest) = None"
  proof (intro impI)
    assume h: "(\<forall>c \<in> set ws. is_white_space c) \<and> (sg = [] \<or> sg = ''+'' \<or> sg = ''-'') \<and>
      (rest = [] \<or> \<not> is_digit (hd rest)) \<and>
      (sg = [] \<and> rest \<noteq> [] \<longrightarrow>
         \<not> is_white_space (hd rest) \<and> hd rest \<noteq> CHR ''+'' \<and> hd rest \<noteq> CHR ''-'')"
    show "parseInt (ws @ sg @ rest) = None"
    proof (rule parseInt_none)
      show "\<forall>c \<in> set ws. is_white_space c" using h by (rule conjunct1)
      show "sg = [] \<or> sg = ''+'' \<or> sg = ''-''" using h by (elim conjE)
      show "rest = [] \<or> \<not> is_digit (hd rest)" using h by (elim conjE)
      show "sg = [] \<and> rest \<noteq> [] \<longrightarrow>
         \<not> is_white_space (hd rest) \<and> hd rest \<noteq> CHR ''+'' \<and> hd rest \<noteq> CHR ''-''"
        using h by (elim conjE)
    qed
  qed
  have zero: "digits_value [] = 0"
    by (simp add: digits_value_def)
  have empty: "hex_encode [] = []"
    by (simp add: hex_encode_def)
  note parts = main split startsWith_iff [of s p] some none zero digits_value_snoc [of ds d]
    is_digit_def [of d] is_white_space_def [of d] empty hex_encode_Cons [of byte bs]
    hex_encode_lowercase [of bs]
  show ?thesis
    by (intro conjI) (use parts in \<open>simp_all only: simp_thms\<close>)
qed

theorem signature_verification_iff_witness:
  "verifyPaddleWebhookSignature sample_hmac 1700000100000 ''{}'' ''sk'' ''ts=1700000000;h1=736b0d0f'' \<and>
   \<not> verifyPaddleWebhookSignature sample_hmac 1700000400000 ''{}'' ''sk'' ''ts=1700000000;h1=736b0d0f'' \<and>
   \<not> verifyPaddleWebhookSignature sample_hmac 1700000100000 ''{ }'' ''sk'' ''ts=1700000000;h1=736b0d0f'' \<and>
   \<not> verifyPaddleWebhookSignature sample_hmac 1700000100000 ''{}'' ''sk'' ''h1=736b0d0f'' \<and>
   parseInt '' -1700000000abc'' = Some (- 1700000000) \<and>
   parseInt '' -abc'' = None \<and>
   hex_encode [115, 107, 13, 15] = ''736b0d0f''"
proof -
  note verify = signature_verification_iff [where hmac = sample_hmac and secret = "''sk''"
      and sep = "CHR '';''" and a = "[]" and b = "[]" and s = "[]" and p = "[]"
      and ws = "'' ''" and sg = "''-''"
      and ds = "''1700000000''" and rest = "''abc''" and d = "CHR ''0''"
      and byte = 115 and bs = "[107, 13, 15]"]
  have p: "parseInt ''1700000000'' = Some 1700000000"
    by (simp add: parseInt_def is_white_space_def is_digit_def digits_value_def)
  have h: "sample_hmac ''sk'' (''1700000000'' @ '':'' @ ''{}'') = Some [115, 107, 13, 15]"
       "sample_hmac ''sk'' (''1700000000'' @ '':'' @ ''{ }'') = Some [115, 107, 14, 15]"
    by (simp_all add: sample_hmac_def)
  have e: "hex_encode [115, 107, 13, 15] = ''736b0d0f''"
          "hex_encode [115, 107, 14, 15] = ''736b0e0f''"
    by (simp_all add: hex_encode_def padStart_def toString16_def hex_digit_def)
  have f: "find (\<lambda>p. startsWith p ''ts='') (split_on CHR '';'' ''ts=1700000000;h1=736b0d0f'')
             = Some ''ts=1700000000''"
          "find (\<lambda>p. startsWith p ''h1='') (split_on CHR '';'' ''ts=1700000000;h1=736b0d0f'')
             = Some ''h1=736b0d0f''"
          "find (\<lambda>p. startsWith p ''ts='') (split_on CHR '';'' ''h1=736b0d0f'') = None"
    by (simp_all add: startsWith_def)
  have 1: "verifyPaddleWebhookSignature sample_hmac 1700000100000 ''{}'' ''sk'' ''ts=1700000000;h1=736b0d0f''"
    using verify [of 1700000100000 "''{}''" "''ts=1700000000;h1=736b0d0f''", THEN conjunct1] p h e
    by (simp add: startsWith_def)
  have 2: "\<not> verifyPaddleWebhookSignature sample_hmac 1700000400000 ''{}'' ''sk'' ''ts=1700000000;h1=736b0d0f''"
    using verify [of 1700000400000 "''{}''" "''ts=1700000000;h1=736b0d0f''", THEN conjunct1] p h e
    by (simp add: startsWith_def)
  have 3: "\<not> verifyPaddleWebhookSignature sample_hmac 1700000100000 ''{ }'' ''sk'' ''ts=1700000000;h1=736b0d0f''"
    using verify [of 1700000100000 "''{ }''" "''ts=1700000000;h1=736b0d0f''", THEN conjunct1] p h e
    by (simp add: startsWith_def)
  have 4: "\<not> verifyPaddleWebhookSignature sample_hmac 1700000100000 ''{}'' ''sk'' ''h1=736b0d0f''"
    using verify [of 1700000100000 "''{}''" "''h1=736b0d0f''", THEN conjunct1]
    by (simp add: startsWith_def)
  have dg: "(\<forall>c \<in> set '' ''. is_white_space c) \<and> (''-'' = [] \<or> ''-'' = ''+'' \<or> ''-'' = ''-'') \<and>
            ''1700000000'' \<noteq> [] \<and> (\<forall>c \<in> set ''1700000000''. is_digit c) \<and>
            (''abc'' = [] \<or> \<not> is_digit (hd ''abc''))"
    by (simp add: is_digit_def is_white_space_def)
  have ng: "(\<forall>c \<in> set '' ''. is_white_space c) \<and> (''-'' = [] \<or> ''-'' = ''+'' \<or> ''-'' = ''-'') \<and>
            (''abc'' = [] \<or> \<not> is_digit (hd ''abc'')) \<and>
            (''-'' = [] \<and> ''abc'' \<noteq> [] \<longrightarrow>
               \<not> is_white_space (hd ''abc'') \<and> hd ''abc'' \<noteq> CHR ''+'' \<and> hd ''abc'' \<noteq> CHR ''-'')"
    by (simp add: is_digit_def is_white_space_def)
  have dv: "digits_value ''1700000000'' = 1700000000"
    by (simp add: digits_value_def)
  have 5: "parseInt ('' '' @ ''-'' @ ''1700000000'' @ ''abc'')
             = Some (if ''-'' = ''-'' then - digits_value ''1700000000'' else digits_value ''1700000000'')"
    using verify [of 1700000100000 "''{}''" "''h1=736b0d0f''",
        THEN conjunct2, THEN conjunct2, THEN conjunct2, THEN conjunct1] dg
    by (rule mp)
  have 6: "parseInt ('' '' @ ''-'' @ ''abc'') = None"
    using verify [of 1700000100000 "''{}''" "''h1=736b0d0f''",
        THEN conjunct2, THEN conjunct2, THEN conjunct2, THEN conjunct2, THEN conjunct1] ng
    by (rule mp)
  show ?thesis
    using 1 2 3 4 5 6 dv e(1) by simp
qed

section \<open>The claims about the webhook route\<close>


lemma verify_stale:
  assumes "find (\<lambda>p. startsWith p ''ts='') (split_on CHR '';'' sg) = Some tsField"
    and "field_value tsField = Some ts" and "parseInt ts = Some n"
    and "\<bar>now div 1000 - n\<bar> > 300"
  shows "\<not> verifyPaddleWebhookSignature hmac now b secret sg"
  using assms
  by (auto simp: verifyPaddleWebhookSignature_def WEBHOOK_MAX_AGE_SECONDS_def
      split: option.splits)



text \<open>
  Claim C7, as stated, fails: the handler tests the configured secret before it looks at
  the signature header, and without a secret it answers 500, not 400, to a request that
  carries no signature.
\<close>

theorem missing_signature_without_secret_is_500:
  "webhook_handler sample_hmac sample_parse failing_dispatch None None
       1700000100000 1700000100500
       \<lparr>signature_header = None, body = ''evt_4''\<rparr> \<lparr>ledger = [], entities = 0\<rparr>
     = (Response 500 (Text ''Webhook secret not configured''), \<lparr>ledger = [], entities = 0\<rparr>)"
  by (simp add: webhook_handler_def webhookSecret_def truthy_def)

text \<open>
  Claim C7, amended.  For every request whose signature header is missing or empty, whose
  signature fails \<open>verifyPaddleWebhookSignature\<close> under the configured secret, or whose
  \<open>ts\<close> value is more than 300 seconds from the current time, the handler returns the
  store exactly as it found it (no ledger mutation and no entity effect: admission and
  dispatch are not reached), and it answers 400 when a webhook secret is configured and
  500 when none is.
\<close>

theorem authentication_precedes_admission:
  assumes "signature_header req = None \<or> signature_header req = Some [] \<or>
     (\<exists>sg secret. signature_header req = Some sg \<and>
        webhookSecret config_secret env_secret = Some secret \<and>
        \<not> verifyPaddleWebhookSignature hmac now (body req) secret sg) \<or>
     (\<exists>sg tsField ts n. signature_header req = Some sg \<and>
        find (\<lambda>p. startsWith p ''ts='') (split_on CHR '';'' sg) = Some tsField \<and>
        field_value tsField = Some ts \<and> parseInt ts = Some n \<and> \<bar>now div 1000 - n\<bar> > 300)"
  shows "snd (webhook_handler hmac parse_body dispatch config_secret env_secret now later req s) = s \<and>
         status_code (fst (webhook_handler hmac parse_body dispatch config_secret env_secret
                             now later req s))
           = (if truthy (webhookSecret config_secret env_secret) then 400 else 500)"
proof (cases "signature_header req")
  case None
  then show ?thesis
    by (simp add: webhook_handler_def truthy_def split: option.splits)
next
  case (Some sg)
  have stale: "\<not> verifyPaddleWebhookSignature hmac now (body req) secret sg"
    if "find (\<lambda>p. startsWith p ''ts='') (split_on CHR '';'' sg) = Some tsField"
      "field_value tsField = Some ts" "parseInt ts = Some n" "\<bar>now div 1000 - n\<bar> > 300"
    for tsField ts n secret
    using verify_stale [OF that] .
  have "sg = [] \<or> (\<forall>secret. webhookSecret config_secret env_secret = Some secret \<longrightarrow>
           \<not> verifyPaddleWebhookSignature hmac now (body req) secret sg)"
    using assms Some stale by auto
  then show ?thesis
    using Some by (auto simp: webhook_handler_def truthy_def split: option.splits)
qed

theorem authentication_precedes_admission_witness:
  "webhook_handler sample_hmac sample_parse failing_dispatch (Some ''sk'') None
       1700000400000 1700000400500
       \<lparr>signature_header = Some ''ts=1700000000;h1=736b100f'', body = ''evt_4''\<rparr>
       \<lparr>ledger = [], entities = 0\<rparr>
     = (Response 400 (Text ''Webhook signature verification failed''),
        \<lparr>ledger = [], entities = 0\<rparr>) \<and>
   webhook_handler sample_hmac sample_parse failing_dispatch (Some ''sk'') None
       1700000100000 1700000100500
       \<lparr>signature_header = Some ''ts=1700000000;h1=736b100f'', body = ''evt_44''\<rparr>
       \<lparr>ledger = [], entities = 0\<rparr>
     = (Response 400 (Text ''Webhook signature verification failed''),
        \<lparr>ledger = [], entities = 0\<rparr>) \<and>
   webhook_handler sample_hmac sample_parse failing_dispatch (Some ''sk'') None
       1700000100000 1700000100500
       \<lparr>signature_header = None, body = ''evt_4''\<rparr> \<lparr>ledger = [], entities = 0\<rparr>
     = (Response 400 (Text ''No signature provided''), \<lparr>ledger = [], entities = 0\<rparr>)"
proof -
  let ?stale = "\<lparr>signature_header = Some ''ts=1700000000;h1=736b100f'', body = ''evt_4''\<rparr>"
  let ?other = "\<lparr>signature_header = Some ''ts=1700000000;h1=736b100f'', body = ''evt_44''\<rparr>"
  let ?none = "\<lparr>signature_header = None, body = ''evt_4''\<rparr>"
  let ?s = "\<lparr>ledger = [], entities = 0::nat\<rparr>"
  have p: "parseInt ''1700000000'' = Some 1700000000"
    by (simp add: parseInt_def is_white_space_def is_digit_def digits_value_def)
  have f: "find (\<lambda>p. startsWith p ''ts='') (split_on CHR '';'' ''ts=1700000000;h1=736b100f'')
             = Some ''ts=1700000000''"
    by (simp add: startsWith_def)
  have v: "field_value ''ts=1700000000'' = Some ''1700000000''"
    by (simp add: field_value_def)
  have a: "\<bar>1700000400000 div 1000 - 1700000000\<bar> > (300::int)"
    by simp
  have sec: "webhookSecret (Some ''sk'') None = Some ''sk''"
    by (simp add: webhookSecret_def truthy_def)
  have t: "truthy (webhookSecret (Some ''sk'') None)"
    by (simp add: webhookSecret_def truthy_def)
  have bad: "\<not> verifyPaddleWebhookSignature sample_hmac 1700000100000 (body ?other) ''sk''
               ''ts=1700000000;h1=736b100f''"
    by (simp add: verifyPaddleWebhookSignature_def startsWith_def field_value_def parseInt_def
        is_white_space_def is_digit_def digits_value_def sample_hmac_def hex_encode_def
        padStart_def toString16_def hex_digit_def xor_accumulate_def WEBHOOK_MAX_AGE_SECONDS_def)
  have hyp1: "signature_header ?stale = None \<or> signature_header ?stale = Some [] \<or>
     (\<exists>sg secret. signature_header ?stale = Some sg \<and>
        webhookSecret (Some ''sk'') None = Some secret \<and>
        \<not> verifyPaddleWebhookSignature sample_hmac 1700000400000 (body ?stale) secret sg) \<or>
     (\<exists>sg tsField ts n. signature_header ?stale = Some sg \<and>
        find (\<lambda>p. startsWith p ''ts='') (split_on CHR '';'' sg) = Some tsField \<and>
        field_value tsField = Some ts \<and> parseInt ts = Some n \<and>
        \<bar>1700000400000 div 1000 - n\<bar> > 300)"
    using p f v a by simp
  have hyp2: "signature_header ?other = None \<or> signature_header ?other = Some [] \<or>
     (\<exists>sg secret. signature_header ?other = Some sg \<and>
        webhookSecret (Some ''sk'') None = Some secret \<and>
        \<not> verifyPaddleWebhookSignature sample_hmac 1700000100000 (body ?other) secret sg) \<or>
     (\<exists>sg tsField ts n. signature_header ?other = Some sg \<and>
        find (\<lambda>p. startsWith p ''ts='') (split_on CHR '';'' sg) = Some tsField \<and>
        field_value tsField = Some ts \<and> parseInt ts = Some n \<and>
        \<bar>1700000100000 div 1000 - n\<bar> > 300)"
    using sec bad by simp
  have hyp3: "signature_header ?none = None \<or> signature_header ?none = Some [] \<or>
     (\<exists>sg secret. signature_header ?none = Some sg \<and>
        webhookSecret (Some ''sk'') None = Some secret \<and>
        \<not> verifyPaddleWebhookSignature sample_hmac 1700000100000 (body ?none) secret sg) \<or>
     (\<exists>sg tsField ts n. signature_header ?none = Some sg \<and>
        find (\<lambda>p. startsWith p ''ts='') (split_on CHR '';'' sg) = Some tsField \<and>
        field_value tsField = Some ts \<and> parseInt ts = Some n \<and>
        \<bar>1700000100000 div 1000 - n\<bar> > 300)"
    by simp
  have 1: "snd (webhook_handler sample_hmac sample_parse failing_dispatch (Some ''sk'') None
                  1700000400000 1700000400500 ?stale ?s) = ?s \<and>
           status_code (fst (webhook_handler sample_hmac sample_parse failing_dispatch (Some ''sk'')
                  None 1700000400000 1700000400500 ?stale ?s)) = 400"
    using authentication_precedes_admission [OF hyp1, of sample_parse failing_dispatch
        1700000400500 ?s] t by simp
  have 2: "snd (webhook_handler sample_hmac sample_parse failing_dispatch (Some ''sk'') None
                  1700000100000 1700000100500 ?other ?s) = ?s \<and>
           status_code (fst (webhook_handler sample_hmac sample_parse failing_dispatch (Some ''sk'')
                  None 1700000100000 1700000100500 ?other ?s)) = 400"
    using authentication_precedes_admission [OF hyp2, of sample_parse failing_dispatch
        1700000100500 ?s] t by simp
  have 3: "snd (webhook_handler sample_hmac sample_parse failing_dispatch (Some ''sk'') None
                  1700000100000 1700000100500 ?none ?s) = ?s \<and>
           status_code (fst (webhook_handler sample_hmac sample_parse failing_dispatch (Some ''sk'')
                  None 1700000100000 1700000100500 ?none ?s)) = 400"
    using authentication_precedes_admission [OF hyp3, of sample_parse failing_dispatch
        1700000100500 ?s] t by simp
  have texts:
    "response_body (fst (webhook_handler sample_hmac sample_parse failing_dispatch (Some ''sk'') None
        1700000400000 1700000400500 ?stale ?s)) = Text ''Webhook signature verification failed''"
    "response_body (fst (webhook_handler sample_hmac sample_parse failing_dispatch (Some ''sk'') None
        1700000100000 1700000100500 ?other ?s)) = Text ''Webhook signature verification failed''"
    "response_body (fst (webhook_handler sample_hmac sample_parse failing_dispatch (Some ''sk'') None
        1700000100000 1700000100500 ?none ?s)) = Text ''No signature provided''"
    using bad verify_stale [OF f v p a, of sample_hmac "body ?stale" "''sk''"]
    by (simp_all add: webhook_handler_def sec)
  show ?thesis
    using 1 2 3 texts
    by (metis prod.collapse response.collapse)
qed

section \<open>The claims about the entity handlers\<close>

lemma backfill_loop_fixed_state:
  assumes "backfill_loop userId orgId subId txns = Some result"
  shows "backfill_step userId orgId subId txns \<noteq> (True, txns)"
proof (rule backfill_loop.raw_induct
    [where P = "\<lambda>u g s t r. backfill_step u g s t \<noteq> (True, t)", OF _ assms])
  fix f u g s t r
  assume IH: "\<And>u g s t r. f u g s t = Some r \<Longrightarrow> backfill_step u g s t \<noteq> (True, t)"
    and body: "(case backfill_step u g s t of
                  (hasMore, txns') \<Rightarrow> if hasMore then f u g s txns' else Some txns') = Some r"
  show "backfill_step u g s t \<noteq> (True, t)"
  proof
    assume fixed: "backfill_step u g s t = (True, t)"
    with body have "f u g s t = Some r"
      by simp
    from IH [OF this] fixed show False
      by simp
  qed
qed

lemma backfill_loop_diverges:
  "backfill_step userId orgId subId txns = (True, txns) \<Longrightarrow>
   backfill_loop userId orgId subId txns = None"
  using backfill_loop_fixed_state by (cases "backfill_loop userId orgId subId txns") auto

lemma db_patch_identity:
  "(\<And>r. (i, r) \<in> set t \<Longrightarrow> f r = r) \<Longrightarrow> db_patch i f t = t"
  unfolding db_patch_def by (induction t) auto

lemma fold_db_patch_identity:
  "(\<And>i x r. (i, x) \<in> set upd \<Longrightarrow> f x r = r) \<Longrightarrow>
   fold (\<lambda>(i, x). db_patch i (f x)) upd t = t"
proof (induction upd)
  case Nil
  then show ?case by simp
next
  case (Cons a upd)
  obtain i x where a: "a = (i, x)" by (cases a)
  have same: "f x r = r" for r
    using Cons.prems [of i x r] a by simp
  have "db_patch i (f x) t = t"
    by (rule db_patch_identity) (rule same)
  moreover have "fold (\<lambda>(i, x). db_patch i (f x)) upd t = t"
  proof (rule Cons.IH)
    fix j y r
    assume "(j, y) \<in> set upd"
    then show "f y r = r"
      using Cons.prems [of j y r] by simp
  qed
  ultimately show ?case
    using a by simp
qed

lemma backfill_step_stuck:
  assumes user: "truthy userId" and org: "\<not> truthy orgId"
    and full: "length (take BATCH_SIZE
                 (filter (\<lambda>(i, r). txn_paddleSubscriptionId r = Some subId) txns)) = BATCH_SIZE"
    and rows: "\<forall>(i, txn) \<in> set (take BATCH_SIZE
                 (filter (\<lambda>(i, r). txn_paddleSubscriptionId r = Some subId) txns)).
                 truthy (txn_userId txn) \<and> \<not> truthy (txn_orgId txn)"
  shows "backfill_step userId orgId subId txns = (True, txns)"
proof -
  let ?batch = "take BATCH_SIZE (filter (\<lambda>(i, r). txn_paddleSubscriptionId r = Some subId) txns)"
  have upd: "filter (\<lambda>(i, txn). \<not> truthy (txn_userId txn) \<or> \<not> truthy (txn_orgId txn)) ?batch
               = ?batch"
    by (rule filter_True) (use rows in auto)
  have same: "fold (\<lambda>(i, txn). db_patch i (backfill_patch userId orgId txn)) ?batch txns = txns"
  proof (rule fold_db_patch_identity)
    fix i txn r
    assume "(i, txn) \<in> set ?batch"
    then have "truthy (txn_userId txn)"
      using rows by auto
    then show "backfill_patch userId orgId txn r = r"
      using org by (simp add: backfill_patch_def)
  qed
  have "0 < length ?batch"
    using full by (simp add: BATCH_SIZE_def)
  then show ?thesis
    unfolding backfill_step_def Let_def upd same using full by simp
qed

text \<open>
  Claim C5 says that the backfill loop of \<open>handleSubscriptionCreated\<close> ends for every
  argument and every store.  It does not.  Every turn of the loop reads the first
  \<open>BATCH_SIZE\<close> transactions of the subscription again.  When the custom data names the
  user but no organisation, and that first page is full and each of its transactions has
  a user id and no organisation id, every transaction of the page stays in \<open>toUpdate\<close>
  and none of them is changed by its patch: \<open>hasMore\<close> is true after every turn, the
  store stays as it is, and the mutation never returns (the result \<open>None\<close>).
\<close>

theorem backfill_never_returns:
  assumes "unique (\<lambda>r. sub_paddleSubscriptionId r = sc_paddleSubscriptionId args) (subscriptions s)
             = Inr existing"
    and "truthy (customData_or_empty (sc_customData args) ''userId'')"
    and "\<not> truthy (customData_or_empty (sc_customData args) ''orgId'')"
    and "length (take BATCH_SIZE (filter
           (\<lambda>(i, r). txn_paddleSubscriptionId r = Some (sc_paddleSubscriptionId args))
           (transactions s))) = BATCH_SIZE"
    and "\<forall>(i, txn) \<in> set (take BATCH_SIZE (filter
           (\<lambda>(i, r). txn_paddleSubscriptionId r = Some (sc_paddleSubscriptionId args))
           (transactions s))).
           truthy (txn_userId txn) \<and> \<not> truthy (txn_orgId txn)"
  shows "handleSubscriptionCreated args s = None"
proof -
  have "backfill_loop (customData_or_empty (sc_customData args) ''userId'')
          (customData_or_empty (sc_customData args) ''orgId'')
          (sc_paddleSubscriptionId args) (transactions s) = None"
    using backfill_loop_diverges [OF backfill_step_stuck [OF assms(2,3,4,5)]] .
  then show ?thesis
    using assms(1,2) by (simp add: handleSubscriptionCreated_def Let_def)
qed

theorem backfill_never_returns_witness:
  "handleSubscriptionCreated sample_subscription_created hundred_transactions = None"
proof -
  let ?t = "map (\<lambda>k. (k, sample_transaction k)) [0..<100]"
  have sid: "sc_paddleSubscriptionId sample_subscription_created = ''sub_1''"
    and cd: "customData_or_empty (sc_customData sample_subscription_created) ''userId'' = Some ''user_1''"
      "customData_or_empty (sc_customData sample_subscription_created) ''orgId'' = None"
    by (simp_all add: sample_subscription_created_def customData_or_empty_def)
  have st: "subscriptions hundred_transactions = []" "transactions hundred_transactions = ?t"
    by (simp_all add: hundred_transactions_def)
  have 1: "unique (\<lambda>r. sub_paddleSubscriptionId r = sc_paddleSubscriptionId sample_subscription_created)
             (subscriptions hundred_transactions) = Inr None"
    by (simp add: st unique_def)
  have 2: "truthy (customData_or_empty (sc_customData sample_subscription_created) ''userId'')"
    by (simp add: cd truthy_def)
  have 3: "\<not> truthy (customData_or_empty (sc_customData sample_subscription_created) ''orgId'')"
    by (simp add: cd truthy_def)
  have page: "take BATCH_SIZE (filter
           (\<lambda>(i, r). txn_paddleSubscriptionId r = Some (sc_paddleSubscriptionId sample_subscription_created))
           (transactions hundred_transactions)) = ?t"
  proof -
    have "filter (\<lambda>(i, r). txn_paddleSubscriptionId r = Some ''sub_1'') ?t = ?t"
      by (rule filter_True) (auto simp: sample_transaction_def)
    then show ?thesis
      by (simp add: sid st BATCH_SIZE_def del: upt_Suc)
  qed
  have 4: "length (take BATCH_SIZE (filter
           (\<lambda>(i, r). txn_paddleSubscriptionId r = Some (sc_paddleSubscriptionId sample_subscription_created))
           (transactions hundred_transactions))) = BATCH_SIZE"
    unfolding page by (simp add: BATCH_SIZE_def)
  have 5: "\<forall>(i, txn) \<in> set (take BATCH_SIZE (filter
           (\<lambda>(i, r). txn_paddleSubscriptionId r = Some (sc_paddleSubscriptionId sample_subscription_created))
           (transactions hundred_transactions))).
           truthy (txn_userId txn) \<and> \<not> truthy (txn_orgId txn)"
    unfolding page by (auto simp: sample_transaction_def truthy_def)
  show ?thesis
    using backfill_never_returns [OF 1 2 3 4 5] .
qed

lemma truthy_iff: "truthy v = (\<exists>s. v = Some s \<and> s \<noteq> [])"
  by (cases v) (simp_all add: truthy_def)

lemma unique_None_iff: "(unique q tbl = Inr None) = (\<forall>(j, r) \<in> set tbl. \<not> q r)"
proof -
  have "(unique q tbl = Inr None) = (filter (\<lambda>(j, r). q r) tbl = [])"
    by (simp add: unique_def split: list.splits)
  then show ?thesis
    by (auto simp: filter_empty_conv)
qed

text \<open>
  Claim C8 (transaction linkage).  When \<open>handleTransactionCreated\<close>, or
  \<open>handleTransactionCompleted\<close> on its insert path, finds no transaction with the given
  id, it appends one document to the transactions table, under an id no document has,
  built from the arguments, and leaves the rest of the store as it is.  The document's
  \<open>userId\<close> and \<open>orgId\<close> are the values of these keys in the event's custom data when one
  of the two is present (truthy) or no subscription id is given; otherwise they are the
  \<open>userId\<close> and \<open>orgId\<close> of the subscription with that id when there is one, and the
  custom data's values when there is none.  A value is truthy when it is a non-empty
  string, and a lookup finds nothing exactly when no document of the table matches.
\<close>

theorem transaction_linkage_resolution:
  "fresh_id (transactions s) \<notin> fst ` set (transactions s) \<and>
   truthy v = (\<exists>x. v = Some x \<and> x \<noteq> []) \<and>
   ((unique q tbl = Inr None) = (\<forall>(j, r) \<in> set tbl. \<not> q r)) \<and>
   (unique (\<lambda>r. sub_paddleSubscriptionId r = sid) (subscriptions s) = Inr (Some (i, sub)) \<longrightarrow>
      (i, sub) \<in> set (subscriptions s) \<and> sub_paddleSubscriptionId sub = sid) \<and>
   (unique (\<lambda>r. txn_paddleTransactionId r = tc_paddleTransactionId a) (transactions s) = Inr None \<and>
    (truthy (custom_value (tc_customData a) ''userId'') \<or>
     truthy (custom_value (tc_customData a) ''orgId'') \<or>
     \<not> truthy (tc_paddleSubscriptionId a)) \<longrightarrow>
      handleTransactionCreated a s
        = Inr (s\<lparr>transactions := transactions s @
                 [(fresh_id (transactions s),
                   created_transaction a (custom_value (tc_customData a) ''userId'')
                     (custom_value (tc_customData a) ''orgId''))]\<rparr>)) \<and>
   (unique (\<lambda>r. txn_paddleTransactionId r = tc_paddleTransactionId a) (transactions s) = Inr None \<and>
    \<not> truthy (custom_value (tc_customData a) ''userId'') \<and>
    \<not> truthy (custom_value (tc_customData a) ''orgId'') \<and>
    tc_paddleSubscriptionId a = Some sid \<and> sid \<noteq> [] \<and>
    unique (\<lambda>r. sub_paddleSubscriptionId r = sid) (subscriptions s) = Inr (Some (i, sub)) \<longrightarrow>
      handleTransactionCreated a s
        = Inr (s\<lparr>transactions := transactions s @
                 [(fresh_id (transactions s),
                   created_transaction a (sub_userId sub) (sub_orgId sub))]\<rparr>)) \<and>
   (unique (\<lambda>r. txn_paddleTransactionId r = tc_paddleTransactionId a) (transactions s) = Inr None \<and>
    \<not> truthy (custom_value (tc_customData a) ''userId'') \<and>
    \<not> truthy (custom_value (tc_customData a) ''orgId'') \<and>
    tc_paddleSubscriptionId a = Some sid \<and> sid \<noteq> [] \<and>
    unique (\<lambda>r. sub_paddleSubscriptionId r = sid) (subscriptions s) = Inr None \<longrightarrow>
      handleTransactionCreated a s
        = Inr (s\<lparr>transactions := transactions s @
                 [(fresh_id (transactions s),
                   created_transaction a (custom_value (tc_customData a) ''userId'')
                     (custom_value (tc_customData a) ''orgId''))]\<rparr>)) \<and>
   (unique (\<lambda>r. txn_paddleTransactionId r = tp_paddleTransactionId c) (transactions s) = Inr None \<and>
    (truthy (custom_value (tp_customData c) ''userId'') \<or>
     truthy (custom_value (tp_customData c) ''orgId'') \<or>
     \<not> truthy (tp_paddleSubscriptionId c)) \<longrightarrow>
      handleTransactionCompleted c s
        = Inr (s\<lparr>transactions := transactions s @
                 [(fresh_id (transactions s),
                   completed_transaction c (custom_value (tp_customData c) ''userId'')
                     (custom_value (tp_customData c) ''orgId''))]\<rparr>)) \<and>
   (unique (\<lambda>r. txn_paddleTransactionId r = tp_paddleTransactionId c) (transactions s) = Inr None \<and>
    \<not> truthy (custom_value (tp_customData c) ''userId'') \<and>
    \<not> truthy (custom_value (tp_customData c) ''orgId'') \<and>
    tp_paddleSubscriptionId c = Some sid \<and> sid \<noteq> [] \<and>
    unique (\<lambda>r. sub_paddleSubscriptionId r = sid) (subscriptions s) = Inr (Some (i, sub)) \<longrightarrow>
      handleTransactionCompleted c s
        = Inr (s\<lparr>transactions := transactions s @
                 [(fresh_id (transactions s),
                   completed_transaction c (sub_userId sub) (sub_orgId sub))]\<rparr>)) \<and>
   (unique (\<lambda>r. txn_paddleTransactionId r = tp_paddleTransactionId c) (transactions s) = Inr None \<and>
    \<not> truthy (custom_value (tp_customData c) ''userId'') \<and>
    \<not> truthy (custom_value (tp_customData c) ''orgId'') \<and>
    tp_paddleSubscriptionId c = Some sid \<and> sid \<noteq> [] \<and>
    unique (\<lambda>r. sub_paddleSubscriptionId r = sid) (subscriptions s) = Inr None \<longrightarrow>
      handleTransactionCompleted c s
        = Inr (s\<lparr>transactions := transactions s @
                 [(fresh_id (transactions s),
                   completed_transaction c (custom_value (tp_customData c) ''userId'')
                     (custom_value (tp_customData c) ''orgId''))]\<rparr>))"
proof -
  note defs = resolve_linkage_def customData_or_empty_def custom_value_def db_insert_def
    truthy_def Let_def
  have fresh: "fresh_id (transactions s) \<notin> fst ` set (transactions s)"
    using fresh_id_notin .
  have found: "(i, sub) \<in> set (subscriptions s) \<and> sub_paddleSubscriptionId sub = sid"
    if "unique (\<lambda>r. sub_paddleSubscriptionId r = sid) (subscriptions s) = Inr (Some (i, sub))"
    using unique_SomeD [OF that] by simp
  have a1: "handleTransactionCreated a s
        = Inr (s\<lparr>transactions := transactions s @
                 [(fresh_id (transactions s),
                   created_transaction a (custom_value (tc_customData a) ''userId'')
                     (custom_value (tc_customData a) ''orgId''))]\<rparr>)"
    if "unique (\<lambda>r. txn_paddleTransactionId r = tc_paddleTransactionId a) (transactions s) = Inr None"
      "truthy (custom_value (tc_customData a) ''userId'') \<or>
       truthy (custom_value (tc_customData a) ''orgId'') \<or>
       \<not> truthy (tc_paddleSubscriptionId a)"
    using that
    by (auto simp: handleTransactionCreated_def created_transaction_def defs split: option.splits)
  have a2: "handleTransactionCreated a s
        = Inr (s\<lparr>transactions := transactions s @
                 [(fresh_id (transactions s),
                   created_transaction a (sub_userId sub) (sub_orgId sub))]\<rparr>)"
    if "unique (\<lambda>r. txn_paddleTransactionId r = tc_paddleTransactionId a) (transactions s) = Inr None"
      "\<not> truthy (custom_value (tc_customData a) ''userId'')"
      "\<not> truthy (custom_value (tc_customData a) ''orgId'')"
      "tc_paddleSubscriptionId a = Some sid" "sid \<noteq> []"
      "unique (\<lambda>r. sub_paddleSubscriptionId r = sid) (subscriptions s) = Inr (Some (i, sub))"
    using that
    by (auto simp: handleTransactionCreated_def created_transaction_def defs split: option.splits)
  have a3: "handleTransactionCreated a s
        = Inr (s\<lparr>transactions := transactions s @
                 [(fresh_id (transactions s),
                   created_transaction a (custom_value (tc_customData a) ''userId'')
                     (custom_value (tc_customData a) ''orgId''))]\<rparr>)"
    if "unique (\<lambda>r. txn_paddleTransactionId r = tc_paddleTransactionId a) (transactions s) = Inr None"
      "\<not> truthy (custom_value (tc_customData a) ''userId'')"
      "\<not> truthy (custom_value (tc_customData a) ''orgId'')"
      "tc_paddleSubscriptionId a = Some sid" "sid \<noteq> []"
      "unique (\<lambda>r. sub_paddleSubscriptionId r = sid) (subscriptions s) = Inr None"
    using that
    by (auto simp: handleTransactionCreated_def created_transaction_def defs split: option.splits)
  have c1: "handleTransactionCompleted c s
        = Inr (s\<lparr>transactions := transactions s @
                 [(fresh_id (transactions s),
                   completed_transaction c (custom_value (tp_customData c) ''userId'')
                     (custom_value (tp_customData c) ''orgId''))]\<rparr>)"
    if "unique (\<lambda>r. txn_paddleTransactionId r = tp_paddleTransactionId c) (transactions s) = Inr None"
      "truthy (custom_value (tp_customData c) ''userId'') \<or>
       truthy (custom_value (tp_customData c) ''orgId'') \<or>
       \<not> truthy (tp_paddleSubscriptionId c)"
    using that
    by (auto simp: handleTransactionCompleted_def completed_transaction_def defs split: option.splits)
  have c2: "handleTransactionCompleted c s
        = Inr (s\<lparr>transactions := transactions s @
                 [(fresh_id (transactions s),
                   completed_transaction c (sub_userId sub) (sub_orgId sub))]\<rparr>)"
    if "unique (\<lambda>r. txn_paddleTransactionId r = tp_paddleTransactionId c) (transactions s) = Inr None"
      "\<not> truthy (custom_value (tp_customData c) ''userId'')"
      "\<not> truthy (custom_value (tp_customData c) ''orgId'')"
      "tp_paddleSubscriptionId c = Some sid" "sid \<noteq> []"
      "unique (\<lambda>r. sub_paddleSubscriptionId r = sid) (subscriptions s) = Inr (Some (i, sub))"
    using that
    by (auto simp: handleTransactionCompleted_def completed_transaction_def defs split: option.splits)
  have c3: "handleTransactionCompleted c s
        = Inr (s\<lparr>transactions := transactions s @
                 [(fresh_id (transactions s),
                   completed_transaction c (custom_value (tp_customData c) ''userId'')
                     (custom_value (tp_customData c) ''orgId''))]\<rparr>)"
    if "unique (\<lambda>r. txn_paddleTransactionId r = tp_paddleTransactionId c) (transactions s) = Inr None"
      "\<not> truthy (custom_value (tp_customData c) ''userId'')"
      "\<not> truthy (custom_value (tp_customData c) ''orgId'')"
      "tp_paddleSubscriptionId c = Some sid" "sid \<noteq> []"
      "unique (\<lambda>r. sub_paddleSubscriptionId r = sid) (subscriptions s) = Inr None"
    using that
    by (auto simp: handleTransactionCompleted_def completed_transaction_def defs split: option.splits)
  show ?thesis
  proof (intro conjI)
    show "fresh_id (transactions s) \<notin> fst ` set (transactions s)"
      by (rule fresh)
    show "truthy v = (\<exists>x. v = Some x \<and> x \<noteq> [])"
      by (rule truthy_iff)
    show "(unique q tbl = Inr None) = (\<forall>(j, r) \<in> set tbl. \<not> q r)"
      by (rule unique_None_iff)
  qed (use found a1 a2 a3 c1 c2 c3 in blast)+
qed

theorem transaction_linkage_resolution_witness:
  "handleTransactionCreated (sample_transaction_created (Some [''userId'' \<mapsto> ''user_7''])) sample_entities
     = Inr \<lparr>subscriptions = [(0, sample_subscription)],
            transactions =
              [(0, created_transaction (sample_transaction_created (Some [''userId'' \<mapsto> ''user_7'']))
                     (Some ''user_7'') None)]\<rparr> \<and>
   handleTransactionCreated (sample_transaction_created None) sample_entities
     = Inr \<lparr>subscriptions = [(0, sample_subscription)],
            transactions =
              [(0, created_transaction (sample_transaction_created None)
                     (Some ''user_1'') (Some ''org_1''))]\<rparr> \<and>
   handleTransactionCompleted (sample_transaction_completed (Some [''orgId'' \<mapsto> ''org_9''])) sample_entities
     = Inr \<lparr>subscriptions = [(0, sample_subscription)],
            transactions =
              [(0, completed_transaction (sample_transaction_completed (Some [''orgId'' \<mapsto> ''org_9'']))
                     None (Some ''org_9''))]\<rparr> \<and>
   handleTransactionCompleted (sample_transaction_completed None) sample_entities
     = Inr \<lparr>subscriptions = [(0, sample_subscription)],
            transactions =
              [(0, completed_transaction (sample_transaction_completed None)
                     (Some ''user_1'') (Some ''org_1''))]\<rparr> \<and>
   txn_userId (created_transaction (sample_transaction_created None) (Some ''user_1'') (Some ''org_1''))
     = Some ''user_1''"
proof -
  let ?a7 = "sample_transaction_created (Some [''userId'' \<mapsto> ''user_7''])"
  let ?a0 = "sample_transaction_created None"
  let ?c9 = "sample_transaction_completed (Some [''orgId'' \<mapsto> ''org_9''])"
  let ?c0 = "sample_transaction_completed None"
  note linkage = transaction_linkage_resolution [where s = sample_entities
      and sid = "''sub_1''" and i = 0 and sub = sample_subscription
      and v = None and q = "\<lambda>r. True" and tbl = "[] :: transaction table"]
  have txn: "unique (\<lambda>r. txn_paddleTransactionId r = k) (transactions sample_entities) = Inr None" for k
    by (simp add: sample_entities_def unique_def)
  have sub: "unique (\<lambda>r. sub_paddleSubscriptionId r = ''sub_1'') (subscriptions sample_entities)
               = Inr (Some (0, sample_subscription))"
    by (simp add: sample_entities_def unique_def sample_subscription_def)
  have store: "sample_entities\<lparr>transactions := transactions sample_entities @
                 [(fresh_id (transactions sample_entities), row)]\<rparr>
               = \<lparr>subscriptions = [(0, sample_subscription)], transactions = [(0, row)]\<rparr>" for row
    by (simp add: sample_entities_def fresh_id_def)
  have su: "sub_userId sample_subscription = Some ''user_1''"
    "sub_orgId sample_subscription = Some ''org_1''"
    by (simp_all add: sample_subscription_def)
  have v7: "custom_value (tc_customData ?a7) ''userId'' = Some ''user_7''"
    "custom_value (tc_customData ?a7) ''orgId'' = None"
    by (simp_all add: sample_transaction_created_def custom_value_def)
  have v0: "custom_value (tc_customData ?a0) ''userId'' = None"
    "custom_value (tc_customData ?a0) ''orgId'' = None"
    "tc_paddleSubscriptionId ?a0 = Some ''sub_1''"
    by (simp_all add: sample_transaction_created_def custom_value_def)
  have w9: "custom_value (tp_customData ?c9) ''userId'' = None"
    "custom_value (tp_customData ?c9) ''orgId'' = Some ''org_9''"
    by (simp_all add: sample_transaction_completed_def custom_value_def)
  have w0: "custom_value (tp_customData ?c0) ''userId'' = None"
    "custom_value (tp_customData ?c0) ''orgId'' = None"
    "tp_paddleSubscriptionId ?c0 = Some ''sub_1''"
    by (simp_all add: sample_transaction_completed_def custom_value_def)
  have t: "truthy (Some ''user_7'')" "truthy (Some ''org_9'')" "\<not> truthy None"
    by (simp_all add: truthy_def)
  have 1: "handleTransactionCreated ?a7 sample_entities
     = Inr \<lparr>subscriptions = [(0, sample_subscription)],
            transactions = [(0, created_transaction ?a7 (Some ''user_7'') None)]\<rparr>"
    using linkage [of ?a7 ?c9] txn v7 t store by simp
  have 2: "handleTransactionCreated ?a0 sample_entities
     = Inr \<lparr>subscriptions = [(0, sample_subscription)],
            transactions = [(0, created_transaction ?a0 (Some ''user_1'') (Some ''org_1''))]\<rparr>"
    using linkage [of ?a0 ?c0] txn sub v0 t su store by simp
  have 3: "handleTransactionCompleted ?c9 sample_entities
     = Inr \<lparr>subscriptions = [(0, sample_subscription)],
            transactions = [(0, completed_transaction ?c9 None (Some ''org_9''))]\<rparr>"
    using linkage [of ?a7 ?c9] txn w9 t store by simp
  have 4: "handleTransactionCompleted ?c0 sample_entities
     = Inr \<lparr>subscriptions = [(0, sample_subscription)],
            transactions = [(0, completed_transaction ?c0 (Some ''user_1'') (Some ''org_1''))]\<rparr>"
    using linkage [of ?a0 ?c0] txn sub w0 t su store by simp
  have 5: "txn_userId (created_transaction ?a0 (Some ''user_1'') (Some ''org_1'')) = Some ''user_1''"
    by (simp add: created_transaction_def)
  show ?thesis
    using 1 2 3 4 5 by simp
qed

text \<open>
  Claim C10 (frame of a subscription update).  When \<open>handleSubscriptionUpdated\<close> finds
  the subscription, it patches that document; in the patched document \<open>priceId\<close>,
  \<open>customData\<close>, \<open>userId\<close> and \<open>orgId\<close> are the stored values whenever the argument
  (for the last two: the key of the custom data) is absent, while \<open>quantity\<close>,
  \<open>scheduledChange\<close>, \<open>currentBillingPeriodStart\<close>, \<open>currentBillingPeriodEnd\<close>,
  \<open>nextBilledAt\<close>, \<open>pausedAt\<close> and \<open>canceledAt\<close> are the arguments' values, so they
  are unset when the argument is absent.
\<close>

theorem subscription_update_frame:
  assumes "unique (\<lambda>r. sub_paddleSubscriptionId r = su_paddleSubscriptionId args) (subscriptions s)
             = Inr (Some (i, r))"
  shows "\<exists>r'. handleSubscriptionUpdated args s
             = Inr (s\<lparr>subscriptions := db_patch i (subscription_updated_patch args) (subscriptions s)\<rparr>) \<and>
           r' = subscription_updated_patch args r \<and>
           (i, r') \<in> set (db_patch i (subscription_updated_patch args) (subscriptions s)) \<and>
           (su_priceId args = None \<longrightarrow> sub_priceId r' = sub_priceId r) \<and>
           (su_customData args = None \<longrightarrow> sub_customData r' = sub_customData r) \<and>
           (customData_or_empty (su_customData args) ''userId'' = None \<longrightarrow>
              sub_userId r' = sub_userId r) \<and>
           (customData_or_empty (su_customData args) ''orgId'' = None \<longrightarrow>
              sub_orgId r' = sub_orgId r) \<and>
           sub_quantity r' = su_quantity args \<and>
           sub_scheduledChange r' = su_scheduledChange args \<and>
           sub_currentBillingPeriodStart r' = su_currentBillingPeriodStart args \<and>
           sub_currentBillingPeriodEnd r' = su_currentBillingPeriodEnd args \<and>
           sub_nextBilledAt r' = su_nextBilledAt args \<and>
           sub_pausedAt r' = su_pausedAt args \<and>
           sub_canceledAt r' = su_canceledAt args \<and>
           sub_status r' = su_status args \<and>
           sub_paddleSubscriptionId r' = sub_paddleSubscriptionId r \<and>
           sub_paddleCustomerId r' = sub_paddleCustomerId r"
proof -
  have mem: "(i, r) \<in> set (subscriptions s)"
    using unique_SomeD [OF assms] by simp
  have "handleSubscriptionUpdated args s
          = Inr (s\<lparr>subscriptions := db_patch i (subscription_updated_patch args) (subscriptions s)\<rparr>)"
    using assms by (simp add: handleSubscriptionUpdated_def)
  moreover have "(i, subscription_updated_patch args r)
                   \<in> set (db_patch i (subscription_updated_patch args) (subscriptions s))"
    using db_patch_member [OF mem] .
  ultimately show ?thesis
    by (simp add: subscription_updated_patch_def Let_def)
qed

theorem subscription_update_frame_witness:
  "handleSubscriptionUpdated sample_subscription_updated sample_entities
     = Inr \<lparr>subscriptions =
              [(0, sample_subscription\<lparr>sub_status := ''past_due'', sub_quantity := None,
                     sub_scheduledChange := None, sub_currentBillingPeriodStart := None,
                     sub_currentBillingPeriodEnd := None, sub_nextBilledAt := None\<rparr>)],
            transactions = []\<rparr>"
proof -
  have u: "unique (\<lambda>r. sub_paddleSubscriptionId r = su_paddleSubscriptionId sample_subscription_updated)
             (subscriptions sample_entities) = Inr (Some (0, sample_subscription))"
    by (simp add: sample_entities_def unique_def sample_subscription_def
        sample_subscription_updated_def)
  from subscription_update_frame [OF u]
  have "handleSubscriptionUpdated sample_subscription_updated sample_entities
          = Inr (sample_entities\<lparr>subscriptions :=
                   db_patch 0 (subscription_updated_patch sample_subscription_updated)
                     (subscriptions sample_entities)\<rparr>)"
    by blast
  then show ?thesis
    by (simp add: sample_entities_def db_patch_def subscription_updated_patch_def
        sample_subscription_updated_def sample_subscription_def customData_or_empty_def)
qed

end
